theory Spec2Isabelle
  imports Main "HOL-Library.Sublist" "HOL-Library.Multiset"
begin

section \<open>Python values of the generation module\<close>

text \<open>
  A raised exception is a value: the name of its class and its message, under one of
  two constructors. \<open>PyException\<close> holds the instances of Python's class \<open>Exception\<close> and
  of its subclasses (\<open>KeyError\<close>, \<open>RuntimeError\<close>, ...), which a handler \<open>except Exception\<close>
  catches. \<open>PyBaseException\<close> holds the instances of the classes that derive from
  \<open>BaseException\<close> and not from \<open>Exception\<close> (\<open>SystemExit\<close>, \<open>KeyboardInterrupt\<close>,
  \<open>GeneratorExit\<close>), which such a handler does not catch.
\<close>

datatype py_exception =
  PyException (exc_class: string) (exc_msg: string)
| PyBaseException (exc_class: string) (exc_msg: string)

text \<open>
  A Result Record maps a site identifier (an integer gid) to the output record of the
  site. The output record is whatever the simulation engine produces for a site.
\<close>

type_synonym 'o result_record = "int \<rightharpoonup> 'o"

text \<open>
  The simulation engine (module \<open>reV.SAM.SAM\<close>) is an external collaborator: one
  \<open>reV_run\<close> function per technology, called as
  \<open>reV_run(points_control, res_file, output_request=output_request)\<close>, returning a
  Result Record or raising.
\<close>

type_synonym ('pc, 'o) reV_run =
  "'pc \<Rightarrow> string option \<Rightarrow> string list option \<Rightarrow> py_exception + 'o result_record"

record ('pc, 'o) SAM =
  PV_reV_run :: "('pc, 'o) reV_run"
  CSP_reV_run :: "('pc, 'o) reV_run"
  LandBasedWind_reV_run :: "('pc, 'o) reV_run"
  OffshoreWind_reV_run :: "('pc, 'o) reV_run"

section \<open>Worker invocation: \<open>Gen.funs\<close> and \<open>Gen.run\<close>\<close>

text \<open>The class attribute \<open>Gen.funs\<close>: a dictionary keyed by the technology name.\<close>

definition funs :: "('pc, 'o) SAM \<Rightarrow> string \<rightharpoonup> ('pc, 'o) reV_run" where
  "funs sam =
     [''pv'' \<mapsto> PV_reV_run sam,
      ''csp'' \<mapsto> CSP_reV_run sam,
      ''landbasedwind'' \<mapsto> LandBasedWind_reV_run sam,
      ''offshorewind'' \<mapsto> OffshoreWind_reV_run sam]"

text \<open>
  The subscript \<open>Gen.funs[tech]\<close>: a key the dictionary does not hold raises
  \<open>KeyError\<close>; so does \<open>None\<close>, the default of the parameter \<open>tech\<close>.
\<close>

definition funs_getitem ::
  "('pc, 'o) SAM \<Rightarrow> string option \<Rightarrow> py_exception + ('pc, 'o) reV_run" where
  "funs_getitem sam tech =
     (case tech of
        None \<Rightarrow> Inl (PyException ''KeyError'' ''None'')
      | Some t \<Rightarrow>
          (case funs sam t of
             None \<Rightarrow> Inl (PyException ''KeyError'' t)
           | Some f \<Rightarrow> Inr f))"

text \<open>
  The body of the \<open>try\<close> block of \<open>Gen.run\<close>:
  \<open>out = Gen.funs[tech](points_control, res_file, output_request=output_request)\<close>.
  The lookup and the call are both inside the block.
\<close>

definition run_try ::
  "('pc, 'o) SAM \<Rightarrow> 'pc \<Rightarrow> string option \<Rightarrow> string option \<Rightarrow> string list option
     \<Rightarrow> py_exception + 'o result_record" where
  "run_try sam points_control tech res_file output_request =
     (case funs_getitem sam tech of
        Inl e \<Rightarrow> Inl e
      | Inr f \<Rightarrow> f points_control res_file output_request)"

text \<open>
  \<open>Gen.run\<close>. The handler \<open>except Exception\<close> catches the instances of \<open>Exception\<close>: it
  sets \<open>out = {}\<close> and logs \<open>'Worker failed for PC: {}'.format(points_control)\<close>; the log
  is a list of messages, passed in and returned. An exception that is not an instance
  of \<open>Exception\<close> passes the handler and leaves \<open>Gen.run\<close>. \<open>str_pc\<close> is the string
  conversion of the chunk (class \<open>PointsControl\<close>, an external collaborator).
\<close>

definition run ::
  "('pc \<Rightarrow> string) \<Rightarrow> ('pc, 'o) SAM \<Rightarrow> 'pc \<Rightarrow> string option \<Rightarrow> string option
     \<Rightarrow> string list option \<Rightarrow> string list
     \<Rightarrow> py_exception + ('o result_record \<times> string list)" where
  "run str_pc sam points_control tech res_file output_request lg =
     (case run_try sam points_control tech res_file output_request of
        Inr out \<Rightarrow> Inr (out, lg)
      | Inl (PyException c m) \<Rightarrow>
          Inr (Map.empty, lg @ [''Worker failed for PC: '' @ str_pc points_control])
      | Inl (PyBaseException c m) \<Rightarrow> Inl (PyBaseException c m))"

text \<open>The technology names \<open>Gen.funs\<close> recognises.\<close>

definition recognized_techs :: "string list" where
  "recognized_techs = [''pv'', ''csp'', ''landbasedwind'', ''offshorewind'']"

text \<open>
  A simulation engine for the examples: chunks are numbered, the engine raises for chunk
  2 and returns one site per chunk otherwise.
\<close>

definition stub_reV_run :: "(nat, nat) reV_run" where
  "stub_reV_run pc rf orq =
     (if pc = 2 then Inl (PyException ''RuntimeError'' ''simulation failed'')
      else Inr [int pc \<mapsto> pc])"

definition stub_SAM :: "(nat, nat) SAM" where
  "stub_SAM =
     \<lparr>PV_reV_run = stub_reV_run, CSP_reV_run = stub_reV_run,
      LandBasedWind_reV_run = stub_reV_run, OffshoreWind_reV_run = stub_reV_run\<rparr>"

definition stub_str_pc :: "nat \<Rightarrow> string" where
  "stub_str_pc pc = (if pc = 2 then ''chunk 2'' else ''chunk'')"

text \<open>
  A second engine for the examples: it ends the interpreter (\<open>sys.exit(1)\<close>, which
  raises \<open>SystemExit\<close>) for chunk 2 and returns one site per chunk otherwise.
\<close>

definition exiting_reV_run :: "(nat, nat) reV_run" where
  "exiting_reV_run pc rf orq =
     (if pc = 2 then Inl (PyBaseException ''SystemExit'' ''1'')
      else Inr [int pc \<mapsto> pc])"

definition exiting_SAM :: "(nat, nat) SAM" where
  "exiting_SAM =
     \<lparr>PV_reV_run = exiting_reV_run, CSP_reV_run = exiting_reV_run,
      LandBasedWind_reV_run = exiting_reV_run, OffshoreWind_reV_run = exiting_reV_run\<rparr>"

section \<open>Python string operations\<close>

text \<open>
  Strings are lists of characters. Each function below is the \<open>str\<close> method of the same
  name, as the generation module uses it.
\<close>

definition endswith :: "string \<Rightarrow> string \<Rightarrow> bool" where
  "endswith s suf = suffix suf s"

text \<open>\<open>sub in s\<close> on strings: \<open>sub\<close> occurs in \<open>s\<close> as a contiguous run.\<close>

definition str_contains :: "string \<Rightarrow> string \<Rightarrow> bool" where
  "str_contains sub s = sublist sub s"

text \<open>
  \<open>s.replace(old, new)\<close>: every occurrence of \<open>old\<close>, found from the left without
  overlap, becomes \<open>new\<close>. For the empty \<open>old\<close> Python puts \<open>new\<close> before every character
  and at the end.
\<close>

fun str_replace :: "string \<Rightarrow> string \<Rightarrow> string \<Rightarrow> string" where
  "str_replace old new [] = (if old = [] then new else [])"
| "str_replace old new (c # cs) =
     (if old = [] then new @ c # str_replace old new cs
      else if prefix old (c # cs) then new @ str_replace old new (drop (length old) (c # cs))
      else c # str_replace old new cs)"

text \<open>\<open>s.strip(chars)\<close>: leading and trailing characters that are in \<open>chars\<close> are removed.\<close>

definition str_strip :: "string \<Rightarrow> string \<Rightarrow> string" where
  "str_strip chars s =
     rev (dropWhile (\<lambda>c. c \<in> set chars) (rev (dropWhile (\<lambda>c. c \<in> set chars) s)))"

text \<open>\<open>s.lower()\<close> on ASCII: the letters \<open>A\<close> to \<open>Z\<close> become \<open>a\<close> to \<open>z\<close>.\<close>

definition lower_char :: "char \<Rightarrow> char" where
  "lower_char c =
     (case map_of (zip ''ABCDEFGHIJKLMNOPQRSTUVWXYZ'' ''abcdefghijklmnopqrstuvwxyz'') c of
        Some l \<Rightarrow> l
      | None \<Rightarrow> c)"

definition str_lower :: "string \<Rightarrow> string" where
  "str_lower s = map lower_char s"

text \<open>\<open>str(n)\<close> for an integer \<open>n \<ge> 0\<close>: its decimal digits.\<close>

definition digit_char :: "nat \<Rightarrow> char" where
  "digit_char d = ''0123456789'' ! d"

fun str_nat :: "nat \<Rightarrow> string" where
  "str_nat n = (if n < 10 then [digit_char n] else str_nat (n div 10) @ [digit_char (n mod 10)])"

declare str_nat.simps [simp del]

text \<open>\<open>s.zfill(width)\<close> for a string of digits (no sign): zeros are put in front.\<close>

definition zfill :: "nat \<Rightarrow> string \<Rightarrow> string" where
  "zfill width s = replicate (width - length s) (CHR ''0'') @ s"

text \<open>
  The format specification \<open>{:02d}\<close>: at least two characters, padded with zeros after
  the sign; a number that needs more characters gets them all.
\<close>

definition format_02d :: "int \<Rightarrow> string" where
  "format_02d i =
     (if i < 0 then CHR ''-'' # zfill 1 (str_nat (nat (- i))) else zfill 2 (str_nat (nat i)))"

text \<open>\<open>int(s)\<close> for a string of ASCII digits.\<close>

definition is_digit :: "char \<Rightarrow> bool" where
  "is_digit c = (c \<in> set ''0123456789'')"

definition digit_val :: "char \<Rightarrow> nat" where
  "digit_val c = of_char c - 48"

definition int_of_digits :: "string \<Rightarrow> nat" where
  "int_of_digits ds = fold (\<lambda>c acc. 10 * acc + digit_val c) ds 0"

section \<open>Node fan-out: \<open>get_node_name_fout\<close>\<close>

text \<open>
  \<open>get_node_name_fout(name, fout, i, hpc='slurm')\<close> of \<open>cli_gen.py\<close>. The source compares
  \<open>hpc\<close> with the literals by \<open>is\<close>; its two callers pass the literals \<open>'pbs'\<close> and
  \<open>'slurm'\<close>, for which identity and equality agree. For any other value neither branch
  assigns \<open>lim\<close>, and reading it raises \<open>UnboundLocalError\<close>.
\<close>

definition node_name_lim :: "string \<Rightarrow> nat option" where
  "node_name_lim hpc =
     (if hpc = ''slurm'' then Some 6 else if hpc = ''pbs'' then Some 14 else None)"

definition get_node_name_fout ::
  "string \<Rightarrow> string \<Rightarrow> int \<Rightarrow> string \<Rightarrow> py_exception + (string \<times> string)" where
  "get_node_name_fout name fout i hpc =
     (case node_name_lim hpc of
        None \<Rightarrow> Inl (PyException ''UnboundLocalError'' ''lim'')
      | Some lim \<Rightarrow>
          (let node_name = take lim name @ format_02d i;
               fout1 = (if endswith fout ''.h5'' then str_strip ''.h5'' fout else fout);
               fout_node = fout1 @ ''_node'' @ format_02d i @ ''.h5''
           in Inr (node_name, fout_node)))"

section \<open>The class \<open>Gen\<close>\<close>

text \<open>
  A time step of a resource's time index (a \<open>pandas.DatetimeIndex\<close>); the generation
  module reads the attributes \<open>month\<close> and \<open>day\<close>.
\<close>

record timestamp =
  year :: int
  month :: nat
  day :: nat
  hour :: nat
  minute :: nat

text \<open>
  An instance of \<open>Gen\<close>: the attributes \<open>__init__\<close> sets, and the attributes \<open>_out\<close> and
  \<open>_time_index\<close>, which exist only once a property has set them (\<open>None\<close> here stands for
  \<open>hasattr\<close> being false).
\<close>

record ('pc, 'o) Gen =
  attr_points_control :: 'pc
  attr_res_file :: string
  attr_output_request :: "string list"
  attr_fout :: "string option"
  attr_dirout :: "string option"
  attr_out :: "'o result_record option"
  attr_time_index :: "timestamp list option"

definition Gen_init ::
  "'pc \<Rightarrow> string \<Rightarrow> string list \<Rightarrow> string option \<Rightarrow> string option \<Rightarrow> ('pc, 'o) Gen" where
  "Gen_init points_control res_file output_request fout dirout =
     \<lparr>attr_points_control = points_control, attr_res_file = res_file,
      attr_output_request = output_request, attr_fout = fout, attr_dirout = dirout,
      attr_out = None, attr_time_index = None\<rparr>"

subsection \<open>The Result Table: the property \<open>out\<close> and \<open>unpack_futures\<close>\<close>


text \<open>The getter of \<open>out\<close> creates the empty table when the attribute is missing.\<close>

definition out_getter :: "('pc, 'o) Gen \<Rightarrow> 'o result_record \<times> ('pc, 'o) Gen" where
  "out_getter g =
     (case attr_out g of
        None \<Rightarrow> (Map.empty, g\<lparr>attr_out := Some Map.empty\<rparr>)
      | Some m \<Rightarrow> (m, g))"




subsection \<open>The property \<open>time_index\<close>\<close>

text \<open>
  Two operations of \<open>pandas.Index\<close>: \<open>index[mask]\<close> keeps the entries at which the boolean
  mask holds, and \<open>index.drop(labels)\<close> removes every entry equal to one of the labels
  and raises \<open>KeyError\<close> for a label the index does not hold.
\<close>

definition index_mask :: "'a list \<Rightarrow> bool list \<Rightarrow> 'a list" where
  "index_mask xs flags = map fst (filter snd (zip xs flags))"

definition index_drop :: "'a list \<Rightarrow> 'a list \<Rightarrow> py_exception + 'a list" where
  "index_drop xs labels =
     (if \<exists>l \<in> set labels. l \<notin> set xs then Inl (PyException ''KeyError'' ''labels not found in axis'')
      else Inr (filter (\<lambda>x. x \<notin> set labels) xs))"

text \<open>
  \<open>time_index\<close> is declared as a property with a parameter \<open>drop_leap=True\<close>; a property is
  read without arguments, so \<open>drop_leap\<close> is always true. \<open>Resource_time_index\<close> is the
  resource reader (\<open>Resource(res_file).time_index\<close>, an external collaborator).
\<close>

definition time_index ::
  "(string \<Rightarrow> py_exception + timestamp list) \<Rightarrow> ('pc, 'o) Gen
     \<Rightarrow> py_exception + (timestamp list \<times> ('pc, 'o) Gen)" where
  "time_index Resource_time_index g =
     (case attr_time_index g of
        Some ti \<Rightarrow> Inr (ti, g)
      | None \<Rightarrow>
          (case Resource_time_index (attr_res_file g) of
             Inl e \<Rightarrow> Inl e
           | Inr raw \<Rightarrow>
               (let drop_leap = True in
                if drop_leap then
                  (let leap_day = map (\<lambda>t. month t = 2 \<and> day t = 29) raw in
                   case index_drop raw (index_mask raw leap_day) of
                     Inl e \<Rightarrow> Inl e
                   | Inr ti \<Rightarrow> Inr (ti, g\<lparr>attr_time_index := Some ti\<rparr>))
                else Inr (raw, g\<lparr>attr_time_index := Some raw\<rparr>))))"

subsection \<open>The chunk size: \<open>sites_per_core\<close>\<close>

text \<open>
  What \<open>sites_per_core\<close> reads of an open resource file (class \<open>Resource\<close>, an external
  collaborator): the names of its datasets, and for a dataset its \<open>chunks\<close> attribute,
  which is the chunk shape or \<open>None\<close> for a dataset stored without chunking.
\<close>

record resource =
  dsets :: "string list"
  h5_chunks :: "string \<rightharpoonup> nat list option"

text \<open>The local variable \<open>chunks\<close>: not assigned yet, or assigned a value.\<close>

datatype chunks_var = Unbound | Bound "nat list option"

definition h5_getitem_chunks :: "resource \<Rightarrow> string \<Rightarrow> py_exception + chunks_var" where
  "h5_getitem_chunks res dset =
     (case h5_chunks res dset of
        None \<Rightarrow> Inl (PyException ''KeyError'' dset)
      | Some ch \<Rightarrow> Inr (Bound ch))"

definition sites_per_core ::
  "(string \<Rightarrow> py_exception + resource) \<Rightarrow> string \<Rightarrow> nat \<Rightarrow> py_exception + nat" where
  "sites_per_core Resource res_file default_sites =
     (case Resource res_file of
        Inl e \<Rightarrow> Inl e
      | Inr res \<Rightarrow>
          (case (if str_contains ''wtk'' (str_lower res_file) then
                   (case find (str_contains ''speed'') (dsets res) of
                      None \<Rightarrow> Inr Unbound
                    | Some dset \<Rightarrow> h5_getitem_chunks res dset)
                 else if str_contains ''nsrdb'' (str_lower res_file) then
                   h5_getitem_chunks res ''dni''
                 else
                   Inl (PyException ''Exception''
                         (''Expected '' @ [CHR 0x22] @ ''nsrdb'' @ [CHR 0x22] @ '' or ''
                          @ [CHR 0x22] @ ''wtk'' @ [CHR 0x22]
                          @ '' to be in resource filename: '' @ res_file))) of
             Inl e \<Rightarrow> Inl e
           | Inr Unbound \<Rightarrow> Inl (PyException ''UnboundLocalError'' ''chunks'')
           | Inr (Bound None) \<Rightarrow> Inr default_sites
           | Inr (Bound (Some chunks)) \<Rightarrow>
               (if 1 < length chunks then Inr (chunks ! 1)
                else Inl (PyException ''IndexError'' ''tuple index out of range''))))"

text \<open>
  The lines of \<open>run_smart\<close> that fix the chunk size:
  \<open>if sites_per_split is None: sites_per_split = Gen.sites_per_core(res_file)\<close>.
\<close>

definition run_smart_sites_per_split ::
  "(string \<Rightarrow> py_exception + resource) \<Rightarrow> string \<Rightarrow> nat option \<Rightarrow> py_exception + nat" where
  "run_smart_sites_per_split Resource res_file sites_per_split =
     (case sites_per_split of
        None \<Rightarrow> sites_per_core Resource res_file 100
      | Some n \<Rightarrow> Inr n)"

text \<open>Values for the examples: Result Records, an instance of \<open>Gen\<close>, resource files.\<close>

definition record_a :: "nat result_record" where
  "record_a = [1 \<mapsto> 10]"



definition stub_gen :: "(nat, nat) Gen" where
  "stub_gen = Gen_init 0 ''nsrdb_2012.h5'' [''cf_mean''] (Some ''x.h5'') None"

definition ts :: "int \<Rightarrow> nat \<Rightarrow> nat \<Rightarrow> timestamp" where
  "ts y m d = \<lparr>year = y, month = m, day = d, hour = 0, minute = 0\<rparr>"

definition nsrdb_chunked :: resource where
  "nsrdb_chunked = \<lparr>dsets = [''dni'', ''ghi''], h5_chunks = [''dni'' \<mapsto> Some [8760, 25], ''ghi'' \<mapsto> None]\<rparr>"

definition nsrdb_unchunked :: resource where
  "nsrdb_unchunked = \<lparr>dsets = [''dni''], h5_chunks = [''dni'' \<mapsto> None]\<rparr>"

definition wtk_chunked :: resource where
  "wtk_chunked =
     \<lparr>dsets = [''pressure_100m'', ''windspeed_100m''],
      h5_chunks = [''pressure_100m'' \<mapsto> None, ''windspeed_100m'' \<mapsto> Some [8760, 50]]\<rparr>"

section \<open>Output files: \<open>get_unique_fout\<close>, \<open>handle_fout\<close> and \<open>flush\<close>\<close>

text \<open>
  What the generation module sees and changes outside the instance: which paths exist
  (\<open>os.path.exists\<close>), the warnings issued (\<open>warnings.warn\<close>) and the records of the log.
\<close>

record os_state =
  path_exists :: "string \<Rightarrow> bool"
  warnings :: "string list"
  log_records :: "string list"

text \<open>\<open>os.path.join(a, b)\<close> for two POSIX paths.\<close>

definition os_path_join :: "string \<Rightarrow> string \<Rightarrow> string" where
  "os_path_join a b =
     (if prefix ''/'' b then b
      else if a = [] \<or> endswith a ''/'' then a @ b
      else a @ ''/'' @ b)"

text \<open>\<open>os.makedirs(d)\<close> creates the directory and the directories above it.\<close>

definition path_parents :: "string \<Rightarrow> string list" where
  "path_parents d = map (\<lambda>i. take i d) (filter (\<lambda>i. d ! i = CHR ''/'') [1..<length d])"

definition os_makedirs :: "os_state \<Rightarrow> string \<Rightarrow> os_state" where
  "os_makedirs st d =
     st\<lparr>path_exists := (\<lambda>p. path_exists st p \<or> p = d \<or> p \<in> set (path_parents d))\<rparr>"

text \<open>
  \<open>re.match(r'.*_x([0-9]{3})', fout)\<close>, returning \<open>group(1)\<close>. \<open>tag_at\<close> matches
  \<open>_x([0-9]{3})\<close> at the start of a string. The match is anchored at the start of
  \<open>fout\<close>; \<open>.*\<close> is greedy, so the last position at which the tag matches wins, and \<open>.\<close>
  does not match a newline, so the tag is looked for in the first line only.
\<close>

fun tag_at :: "string \<Rightarrow> string option" where
  "tag_at (u # x # d1 # d2 # d3 # rest) =
     (if u = CHR ''_'' \<and> x = CHR ''x'' \<and> is_digit d1 \<and> is_digit d2 \<and> is_digit d3
      then Some [d1, d2, d3] else None)"
| "tag_at _ = None"

fun re_match_tag :: "string \<Rightarrow> string option" where
  "re_match_tag [] = None"
| "re_match_tag (c # cs) =
     (case (if c = CHR 0x0A then None else re_match_tag cs) of
        Some g \<Rightarrow> Some g
      | None \<Rightarrow> tag_at (c # cs))"

text \<open>
  The tag that replaces \<open>'_x' + match.group(1)\<close>:
  \<open>'_x' + str(int(match.group(1)) + 1).zfill(3)\<close>.
\<close>

definition new_tag :: "string \<Rightarrow> string" where
  "new_tag g = ''_x'' @ zfill 3 (str_nat (int_of_digits g + 1))"

text \<open>
  \<open>get_unique_fout\<close> calls itself for as long as the name exists and carries a tag; a
  call that never returns has the value \<open>None\<close>.
\<close>

partial_function (option) get_unique_fout :: "(string \<Rightarrow> bool) \<Rightarrow> string \<Rightarrow> string option" where
  "get_unique_fout exists fout =
     (if exists fout then
        (case re_match_tag fout of
           Some g \<Rightarrow> get_unique_fout exists (str_replace (''_x'' @ g) (new_tag g) fout)
         | None \<Rightarrow> Some fout)
      else Some fout)"

text \<open>
  \<open>handle_fout(fout, dirout)\<close>, in two parts. \<open>handle_fout_request\<close> is the function up
  to and including \<open>fout = fout.replace('.h5', '_x000.h5')\<close>: the requested path with the
  first tag, and the outside state after the warning and \<open>os.makedirs\<close>. \<open>dirout\<close> is a
  string or \<open>None\<close>; \<open>if dirout\<close> holds for a string that is not empty.
\<close>

definition h5_warning :: "string \<Rightarrow> string" where
  "h5_warning fout =
     ''Generation output file request must be .h5, set to: '' @ [CHR 0x22] @ fout @ [CHR 0x22]"

definition handle_fout_request :: "os_state \<Rightarrow> string \<Rightarrow> string option \<Rightarrow> string \<times> os_state" where
  "handle_fout_request st fout dirout =
     (let (fout1, st1) =
            (if \<not> endswith fout ''.h5'' then
               (fout @ ''.h5'', st\<lparr>warnings := warnings st @ [h5_warning (fout @ ''.h5'')]\<rparr>)
             else (fout, st));
          (fout2, st2) =
            (case dirout of
               None \<Rightarrow> (fout1, st1)
             | Some d \<Rightarrow>
                 if d \<noteq> [] then
                   (os_path_join d fout1, if \<not> path_exists st1 d then os_makedirs st1 d else st1)
                 else (fout1, st1))
      in (str_replace ''.h5'' ''_x000.h5'' fout2, st2))"

text \<open>The rest of \<open>handle_fout\<close>: \<open>fout = Gen.get_unique_fout(fout)\<close> and \<open>return fout\<close>.\<close>

definition handle_fout :: "os_state \<Rightarrow> string \<Rightarrow> string option \<Rightarrow> (string \<times> os_state) option" where
  "handle_fout st fout dirout =
     (let (fout3, st2) = handle_fout_request st fout dirout
      in case get_unique_fout (path_exists st2) fout3 of
           None \<Rightarrow> None
         | Some unique \<Rightarrow> Some (unique, st2))"

text \<open>
  The name \<open>get_unique_fout\<close> goes on to when \<open>fout\<close> exists: the tag the expression
  matches is replaced, everywhere in the name, by the tag of the next number.
\<close>

definition bump_tag :: "string \<Rightarrow> string" where
  "bump_tag fout =
     (case re_match_tag fout of
        Some g \<Rightarrow> str_replace (''_x'' @ g) (new_tag g) fout
      | None \<Rightarrow> fout)"

text \<open>
  \<open>str(output_request)\<close> for a tuple of names (names without quotes or backslashes, whose
  \<open>repr\<close> is the name between single quotes).
\<close>

definition repr_str :: "string \<Rightarrow> string" where
  "repr_str s = [CHR 0x27] @ s @ [CHR 0x27]"

fun str_join :: "string \<Rightarrow> string list \<Rightarrow> string" where
  "str_join sep [] = []"
| "str_join sep [x] = x"
| "str_join sep (x # y # ys) = x @ sep @ str_join sep (y # ys)"

definition str_tuple :: "string list \<Rightarrow> string" where
  "str_tuple xs =
     (case xs of
        [x] \<Rightarrow> ''('' @ repr_str x @ '',)''
      | _ \<Rightarrow> ''('' @ str_join '', '' (map repr_str xs) @ '')'')"

text \<open>
  \<open>flush(mode='w')\<close>. The methods \<open>profiles_to_disk\<close> and \<open>means_to_disk\<close> read the
  resource's meta data and hand the table to the Output Writer (\<open>Resource\<close> and
  \<open>CapacityFactor\<close>, external collaborators); they are parameters here, called with the
  instance, the target file and the mode, and may change the instance and the outside
  state or raise. A call of \<open>get_unique_fout\<close> that never returns makes \<open>flush\<close> never
  return (\<open>None\<close>).
\<close>

type_synonym ('pc, 'o) to_disk =
  "('pc, 'o) Gen \<Rightarrow> string \<Rightarrow> string \<Rightarrow> os_state \<Rightarrow> py_exception + (('pc, 'o) Gen \<times> os_state)"

definition flush ::
  "('pc, 'o) to_disk \<Rightarrow> ('pc, 'o) to_disk \<Rightarrow> ('pc, 'o) Gen \<Rightarrow> string \<Rightarrow> os_state
     \<Rightarrow> (py_exception + (('pc, 'o) Gen \<times> os_state)) option" where
  "flush profiles_to_disk means_to_disk g mode st =
     (let fout = attr_fout g; dirout = attr_dirout g in
      case fout of
        None \<Rightarrow> Some (Inr (g, st))
      | Some f \<Rightarrow>
          (let (table, g1) = out_getter g in
           if table = Map.empty then Some (Inr (g1, st))
           else
             (case handle_fout st f dirout of
                None \<Rightarrow> None
              | Some (target, st1) \<Rightarrow>
                  (let st2 = st1\<lparr>log_records := log_records st1 @
                         [''Flushing generation outputs to disk, target file: '' @ target]\<rparr>
                   in case (if str_contains ''profile'' (str_tuple (attr_output_request g1))
                            then profiles_to_disk g1 target mode st2
                            else means_to_disk g1 target mode st2) of
                        Inl e \<Rightarrow> Some (Inl e)
                      | Inr (g2, st3) \<Rightarrow>
                          Some (Inr (g2, st3\<lparr>log_records := log_records st3 @
                            [''Flushed generation output successfully to disk.'']\<rparr>))))))"

text \<open>
  An Output Writer for the examples: it creates the target file and changes nothing
  else. And an outside state in which only the path \<open>x.h5\<close> exists.
\<close>

definition stub_to_disk :: "(nat, nat) to_disk" where
  "stub_to_disk g target mode st =
     Inr (g, st\<lparr>path_exists := (\<lambda>p. path_exists st p \<or> p = target)\<rparr>)"

definition only_x_h5 :: os_state where
  "only_x_h5 = \<lparr>path_exists = (\<lambda>p. p = ''x.h5''), warnings = [], log_records = []\<rparr>"

definition with_x000 :: os_state where
  "with_x000 =
     \<lparr>path_exists = (\<lambda>p. p = ''x.h5'' \<or> p = ''x_x000.h5''), warnings = [], log_records = []\<rparr>"

text \<open>A directory whose name holds a newline, and a state in which an output file exists in it.\<close>

definition newline_dir :: string where
  "newline_dir = [CHR ''a'', CHR 0x0A, CHR ''b'']"

definition newline_state :: os_state where
  "newline_state =
     \<lparr>path_exists = (\<lambda>p. p = newline_dir \<or> p = newline_dir @ ''/x_x000.h5''),
      warnings = [], log_records = []\<rparr>"

text \<open>
  Instances for the examples: \<open>stub_gen\<close> has the output file \<open>x.h5\<close> and no table yet;
  \<open>gen_a\<close> has the same output file and a table with one site; \<open>gen_no_fout\<close> has that
  table and no output file.
\<close>

definition gen_a :: "(nat, nat) Gen" where
  "gen_a = stub_gen\<lparr>attr_out := Some record_a\<rparr>"

definition gen_no_fout :: "(nat, nat) Gen" where
  "gen_no_fout = gen_a\<lparr>attr_fout := None\<rparr>"

text \<open>And \<open>gen_newline\<close>, which writes \<open>x.h5\<close> to the directory with the newline.\<close>

definition gen_newline :: "(nat, nat) Gen" where
  "gen_newline = gen_a\<lparr>attr_dirout := Some newline_dir\<rparr>"

section \<open>Node fan-out: \<open>get_node_pc\<close>\<close>

text \<open>
  The argument \<open>points\<close>: a string (the path of a csv file), a slice, a list or a tuple,
  or a value of another type (its type name is kept for the message).
\<close>

datatype points =
  PointsStr string
| PointsSlice nat nat
| PointsList "int list"
| PointsTuple "int list"
| PointsOther string

text \<open>
  The chunk planner's value. \<open>project_points\<close> is the ordered Site Set, as the class
  \<open>ProjectPoints\<close> (an external collaborator) builds it from \<open>points\<close>; its length is
  \<open>len(pp)\<close>.
\<close>

record points_control =
  project_points :: "int list"
  sites_per_split :: int

text \<open>
  \<open>ceil(a / b)\<close>: the quotient is a float and \<open>math.ceil\<close> rounds it up. For a site count
  below \<open>2 ^ 53\<close> the float quotient rounds up to the ceiling of the exact quotient, which
  with floor division is \<open>- ((- a) div b)\<close>.
\<close>

definition ceil_div :: "int \<Rightarrow> int \<Rightarrow> int" where
  "ceil_div a b = - ((- a) div b)"

text \<open>
  \<open>get_node_pc(points, sam_files, tech, res_file, nodes)\<close> of \<open>cli_gen.py\<close>. The division by
  a node count of zero raises \<open>ZeroDivisionError\<close>.
\<close>

definition get_node_pc ::
  "(points \<Rightarrow> string \<Rightarrow> string \<Rightarrow> string \<Rightarrow> py_exception + int list)
     \<Rightarrow> points \<Rightarrow> string \<Rightarrow> string \<Rightarrow> string \<Rightarrow> int \<Rightarrow> py_exception + points_control" where
  "get_node_pc ProjectPoints points sam_files tech res_file nodes =
     (case points of
        PointsOther ty \<Rightarrow>
          Inl (PyException ''TypeError''
                (''Generation Points input type is unrecognized: '' @ [CHR 0x22] @ ty @ [CHR 0x22]))
      | _ \<Rightarrow>
          (case ProjectPoints points sam_files tech res_file of
             Inl e \<Rightarrow> Inl e
           | Inr pp \<Rightarrow>
               if nodes = 0 then Inl (PyException ''ZeroDivisionError'' ''division by zero'')
               else Inr \<lparr>project_points = pp,
                         sites_per_split = ceil_div (int (length pp)) nodes\<rparr>))"

text \<open>
  Modelled from the spec: the iteration of the class \<open>PointsControl\<close> (module
  \<open>reV.config.project_points\<close>, not in the sources). The spec's chunk planner yields
  ordered chunks in which every site of the Site Set appears once, in the original
  order; each chunk is a contiguous index range \<open>[start, stop)\<close> of \<open>sites_per_split\<close>
  sites, and the last may be smaller. Node \<open>i\<close> of the fan-out gets the \<open>i\<close>-th range
  (\<open>for i, split in enumerate(pc)\<close>, \<open>split.split_range\<close>). The spec covers split sizes
  above zero only; for others the ranges are not given (\<open>None\<close>).
\<close>

definition split_ranges :: "points_control \<Rightarrow> (nat \<times> nat) list option" where
  "split_ranges pc =
     (if sites_per_split pc \<le> 0 then None
      else
        (let n = length (project_points pc); k = nat (sites_per_split pc)
         in Some (map (\<lambda>i. (i * k, min ((i + 1) * k) n)) [0..<(n + k - 1) div k])))"

text \<open>A \<open>ProjectPoints\<close> for the examples: a slice gives the sites of its range.\<close>

definition stub_ProjectPoints ::
  "points \<Rightarrow> string \<Rightarrow> string \<Rightarrow> string \<Rightarrow> py_exception + int list" where
  "stub_ProjectPoints points sam_files tech res_file =
     (case points of
        PointsSlice a b \<Rightarrow> Inr (map int [a..<b])
      | PointsList xs \<Rightarrow> Inr xs
      | PointsTuple xs \<Rightarrow> Inr xs
      | _ \<Rightarrow> Inl (PyException ''OSError'' ''no such file''))"

section \<open>Properties of the worker invocation\<close>

lemma dom_funs: "dom (funs sam) = set recognized_techs"
  by (auto simp: funs_def recognized_techs_def split: if_splits)

lemma funs_getitem_Some:
  "funs sam t = Some f \<Longrightarrow> funs_getitem sam (Some t) = Inr f"
  by (simp add: funs_getitem_def)

lemma funs_getitem_unrecognized:
  "t \<notin> set recognized_techs \<Longrightarrow> funs_getitem sam (Some t) = Inl (PyException ''KeyError'' t)"
proof -
  assume "t \<notin> set recognized_techs"
  then have "t \<notin> dom (funs sam)" by (simp add: dom_funs)
  then have "funs sam t = None" by blast
  then show ?thesis by (simp add: funs_getitem_def)
qed

lemma funs_stub_pv: "funs stub_SAM ''pv'' = Some stub_reV_run"
  by (simp add: funs_def stub_SAM_def)

text \<open>
  Claim C1, as stated, fails for an exception that is not an instance of \<open>Exception\<close>:
  when the simulation function raises \<open>SystemExit\<close>, the handler \<open>except Exception\<close> does
  not catch it; \<open>Gen.run\<close> returns no Result Record and logs nothing, the exception
  leaves it.
\<close>

theorem run_system_exit_counterexample:
  "funs exiting_SAM ''pv'' = Some exiting_reV_run \<and>
   exiting_reV_run 2 None None = Inl (PyBaseException ''SystemExit'' ''1'') \<and>
   run stub_str_pc exiting_SAM 2 (Some ''pv'') None None [] =
     Inl (PyBaseException ''SystemExit'' ''1'') \<and>
   \<not> (\<exists>r. run stub_str_pc exiting_SAM 2 (Some ''pv'') None None [] = Inr r)"
  by (simp add: run_def run_try_def funs_getitem_def funs_def exiting_SAM_def
      exiting_reV_run_def)

text \<open>
  Claim C1, amended. Whatever the chunk, the technology name, the resource file and the
  output request: when the technology's simulation function raises an exception that
  is an instance of \<open>Exception\<close>, \<open>Gen.run\<close> catches it, the result is the empty Result
  Record and the log gains the message \<open>Worker failed for PC: <chunk>\<close>; when the
  simulation function returns a mapping, \<open>Gen.run\<close> returns exactly that mapping and
  logs nothing. So \<open>Gen.run\<close> returns, and raises nothing, whenever the lookup and the
  simulation raise no exception outside \<open>Exception\<close>.
\<close>

theorem run_isolates_chunk_failure:
  "((\<forall>c m. run_try sam pc tech rf orq \<noteq> Inl (PyBaseException c m)) \<longrightarrow>
      (\<exists>r. run str_pc sam pc tech rf orq lg = Inr r)) \<and>
   (\<forall>t f. funs sam t = Some f \<longrightarrow>
      (\<forall>c m. f pc rf orq = Inl (PyException c m) \<longrightarrow>
         run str_pc sam pc (Some t) rf orq lg =
           Inr (Map.empty, lg @ [''Worker failed for PC: '' @ str_pc pc])) \<and>
      (\<forall>out. f pc rf orq = Inr out \<longrightarrow>
         run str_pc sam pc (Some t) rf orq lg = Inr (out, lg)))"
proof (intro conjI allI impI)
  assume caught: "\<forall>c m. run_try sam pc tech rf orq \<noteq> Inl (PyBaseException c m)"
  show "\<exists>r. run str_pc sam pc tech rf orq lg = Inr r"
  proof (cases "run_try sam pc tech rf orq")
    case (Inr out)
    then show ?thesis by (simp add: run_def)
  next
    case (Inl e)
    with caught obtain c m where "e = PyException c m" by (cases e) auto
    with Inl show ?thesis by (simp add: run_def)
  qed
next
  fix t f c m
  assume "funs sam t = Some f" and "f pc rf orq = Inl (PyException c m)"
  then show "run str_pc sam pc (Some t) rf orq lg =
      Inr (Map.empty, lg @ [''Worker failed for PC: '' @ str_pc pc])"
    by (simp add: run_def run_try_def funs_getitem_Some)
next
  fix t f out
  assume "funs sam t = Some f" and "f pc rf orq = Inr out"
  then show "run str_pc sam pc (Some t) rf orq lg = Inr (out, lg)"
    by (simp add: run_def run_try_def funs_getitem_Some)
qed

theorem run_isolates_chunk_failure_witness:
  "run stub_str_pc stub_SAM 2 (Some ''pv'') None None [] =
     Inr (Map.empty, [''Worker failed for PC: chunk 2'']) \<and>
   run stub_str_pc stub_SAM 3 (Some ''pv'') None None [] = Inr ([3 \<mapsto> 3], []) \<and>
   (\<exists>r. run stub_str_pc stub_SAM 1 (Some ''solar'') None None [] = Inr r)"
proof -
  have raises: "stub_reV_run 2 None None = Inl (PyException ''RuntimeError'' ''simulation failed'')"
    by (simp add: stub_reV_run_def)
  have returns: "stub_reV_run 3 None None = Inr [3 \<mapsto> 3]"
    by (simp add: stub_reV_run_def)
  have lookup: "\<forall>c m. run_try stub_SAM 1 (Some ''solar'') None None \<noteq> Inl (PyBaseException c m)"
    by (simp add: run_try_def funs_getitem_def funs_def)
  from run_isolates_chunk_failure [of stub_SAM 2 "Some ''pv''" None None stub_str_pc "[]"]
  have "run stub_str_pc stub_SAM 2 (Some ''pv'') None None [] =
      Inr (Map.empty, [] @ [''Worker failed for PC: '' @ stub_str_pc 2])"
    using funs_stub_pv raises by blast
  moreover
  from run_isolates_chunk_failure [of stub_SAM 3 "Some ''pv''" None None stub_str_pc "[]"]
  have "run stub_str_pc stub_SAM 3 (Some ''pv'') None None [] = Inr ([3 \<mapsto> 3], [])"
    using funs_stub_pv returns by blast
  moreover
  from run_isolates_chunk_failure [of stub_SAM 1 "Some ''solar''" None None stub_str_pc "[]"]
  have "\<exists>r. run stub_str_pc stub_SAM 1 (Some ''solar'') None None [] = Inr r"
    using lookup by blast
  ultimately show ?thesis by (simp add: stub_str_pc_def)
qed

text \<open>
  Claim C5, as stated, fails: for the unrecognised technology name \<open>solar\<close> no error
  reaches the caller of \<open>Gen.run\<close>; the chunk's result is the empty Result Record.
\<close>

theorem run_unrecognized_tech_counterexample:
  "''solar'' \<notin> set recognized_techs \<and>
   \<not> (\<exists>e. run stub_str_pc stub_SAM 1 (Some ''solar'') None None [] = Inl e) \<and>
   run stub_str_pc stub_SAM 1 (Some ''solar'') None None [] =
     Inr (Map.empty, [''Worker failed for PC: chunk''])"
  by (simp add: run_def run_try_def funs_getitem_def funs_def recognized_techs_def
      stub_str_pc_def)

text \<open>
  Claim C5, amended. For a technology name \<open>Gen.funs\<close> does not hold, the lookup raises
  \<open>KeyError\<close> inside the \<open>try\<close> block of \<open>Gen.run\<close>; the handler absorbs it as it does
  a failure of the simulation: the message is logged, the result of the chunk is the
  empty Result Record, and no error reaches the caller.
\<close>

theorem run_unrecognized_tech_absorbed:
  "t \<notin> set recognized_techs \<Longrightarrow>
     run_try sam pc (Some t) rf orq = Inl (PyException ''KeyError'' t) \<and>
     run str_pc sam pc (Some t) rf orq lg =
       Inr (Map.empty, lg @ [''Worker failed for PC: '' @ str_pc pc])"
  by (simp add: run_def run_try_def funs_getitem_unrecognized)

theorem run_unrecognized_tech_absorbed_witness:
  "run_try stub_SAM 1 (Some ''wind'') None None = Inl (PyException ''KeyError'' ''wind'') \<and>
   run stub_str_pc stub_SAM 1 (Some ''wind'') None None [] =
     Inr (Map.empty, [''Worker failed for PC: chunk''])"
proof -
  have "''wind'' \<notin> set recognized_techs"
    by (simp add: recognized_techs_def)
  from run_unrecognized_tech_absorbed [OF this, of stub_SAM 1 None None stub_str_pc "[]"]
  show ?thesis by (simp add: stub_str_pc_def)
qed

section \<open>Properties of the string operations\<close>

lemma endswith_append [simp]: "endswith (s @ suf) suf"
  by (simp add: endswith_def suffix_def)

lemma length_str_nat_small: "n < 10 \<Longrightarrow> length (str_nat n) = 1"
  by (simp add: str_nat.simps)

lemma length_str_nat_two: "10 \<le> n \<Longrightarrow> n < 100 \<Longrightarrow> length (str_nat n) = 2"
proof -
  assume "10 \<le> n" and "n < 100"
  then have "n div 10 < 10" by simp
  then have "length (str_nat (n div 10)) = 1" by (rule length_str_nat_small)
  with \<open>10 \<le> n\<close> show ?thesis by (subst str_nat.simps) simp
qed

lemma length_str_nat_pos: "0 < length (str_nat n)"
  by (subst str_nat.simps) simp

lemma length_format_02d_two: "0 \<le> i \<Longrightarrow> i < 100 \<Longrightarrow> length (format_02d i) = 2"
proof -
  assume "0 \<le> i" and "i < 100"
  then have n: "nat i < 100" by simp
  show ?thesis
  proof (cases "nat i < 10")
    case True
    then show ?thesis using \<open>0 \<le> i\<close>
      by (simp add: format_02d_def zfill_def length_str_nat_small)
  next
    case False
    then have "length (str_nat (nat i)) = 2" using n by (simp add: length_str_nat_two)
    then show ?thesis using \<open>0 \<le> i\<close> by (simp add: format_02d_def zfill_def)
  qed
qed

lemma str_strip_stem:
  assumes "stem = [] \<or> (hd stem \<notin> set chars \<and> last stem \<notin> set chars)"
    and "set ext \<subseteq> set chars"
  shows "str_strip chars (stem @ ext) = stem"
proof (cases stem)
  case Nil
  have d: "dropWhile (\<lambda>c. c \<in> set chars) ext = []"
    using assms(2) by (induction ext) auto
  show ?thesis by (simp add: str_strip_def Nil d)
next
  case (Cons c cs)
  with assms(1) have c: "c \<notin> set chars" and l: "last stem \<notin> set chars" by auto
  have front: "dropWhile (\<lambda>c. c \<in> set chars) (stem @ ext) = stem @ ext"
    using Cons c by simp
  have ne: "rev stem \<noteq> []" using Cons by simp
  have "hd (rev stem) = last stem" by (simp add: hd_rev)
  then have h: "hd (rev stem) \<notin> set chars" using l by simp
  from ne h have rear: "dropWhile (\<lambda>c. c \<in> set chars) (rev stem) = rev stem"
    by (cases "rev stem") auto
  have "dropWhile (\<lambda>c. c \<in> set chars) (rev ext @ rev stem) = rev stem"
    using assms(2) rear by (simp add: dropWhile_append subset_iff)
  then show ?thesis using front by (simp add: str_strip_def)
qed

section \<open>Properties of the node names\<close>

text \<open>
  Claim C9 against the code. The docstring of \<open>get_node_name_fout\<close> promises a node name
  of at most 16 characters and the comment reserves two characters for the node index
  (\<open>lim is 16/8, -2 for "2charID"\<close>), but the format \<open>02d\<close> is a minimum width: for node
  100 the index takes three characters, the slurm job name has nine characters and
  the pbs job name seventeen.
\<close>

theorem node_name_three_digit_index:
  "get_node_name_fout ''reV_gen'' ''gen_output.h5'' 100 ''slurm'' =
     Inr (''reV_ge100'', ''gen_output_node100.h5'') \<and>
   length ''reV_ge100'' = 9 \<and>
   get_node_name_fout ''reV_generation_2012'' ''gen_output.h5'' 100 ''pbs'' =
     Inr (''reV_generation100'', ''gen_output_node100.h5'') \<and>
   length ''reV_generation100'' = 17"
  by (simp add: get_node_name_fout_def node_name_lim_def format_02d_def zfill_def
      str_nat.simps digit_char_def endswith_def suffix_to_prefix str_strip_def)

text \<open>
  For the node indices the two reserved characters can hold, 0 to 99, the node names
  fit: the name is the base name cut to the scheduler's limit (6 characters for slurm,
  14 for pbs) followed by the whole index written with two digits, and has at most 8
  characters for slurm and at most 16 for pbs.
\<close>

theorem node_name_fits_limit:
  assumes "0 \<le> i" and "i < 100"
  shows "(\<exists>fo. get_node_name_fout name fout i ''slurm'' = Inr (take 6 name @ format_02d i, fo)) \<and>
         (\<exists>fo. get_node_name_fout name fout i ''pbs'' = Inr (take 14 name @ format_02d i, fo)) \<and>
         length (format_02d i) = 2 \<and>
         length (take 6 name @ format_02d i) \<le> 8 \<and>
         length (take 14 name @ format_02d i) \<le> 16"
proof -
  have two: "length (format_02d i) = 2"
    using assms by (rule length_format_02d_two)
  have slurm: "\<exists>fo. get_node_name_fout name fout i ''slurm'' = Inr (take 6 name @ format_02d i, fo)"
    by (simp add: get_node_name_fout_def node_name_lim_def Let_def)
  have pbs: "\<exists>fo. get_node_name_fout name fout i ''pbs'' = Inr (take 14 name @ format_02d i, fo)"
    by (simp add: get_node_name_fout_def node_name_lim_def Let_def)
  from two slurm pbs show ?thesis by simp
qed

theorem node_name_fits_limit_witness:
  "get_node_name_fout ''generation_run'' ''reV.h5'' 7 ''slurm'' = Inr (''genera07'', ''reV_node07.h5'') \<and>
   get_node_name_fout ''generation_run_2012'' ''reV.h5'' 7 ''pbs'' =
     Inr (''generation_run07'', ''reV_node07.h5'') \<and>
   length ''genera07'' = 8 \<and> length ''generation_run07'' = 16"
proof -
  have i: "(0::int) \<le> 7" "(7::int) < 100" by simp_all
  have f: "format_02d 7 = ''07''"
    by (simp add: format_02d_def zfill_def str_nat.simps digit_char_def)
  from node_name_fits_limit [OF i, of "''generation_run''" "''reV.h5''"]
  obtain fo where s: "get_node_name_fout ''generation_run'' ''reV.h5'' 7 ''slurm'' =
      Inr (take 6 ''generation_run'' @ format_02d 7, fo)"
    by blast
  from node_name_fits_limit [OF i, of "''generation_run_2012''" "''reV.h5''"]
  obtain fo' where p: "get_node_name_fout ''generation_run_2012'' ''reV.h5'' 7 ''pbs'' =
      Inr (take 14 ''generation_run_2012'' @ format_02d 7, fo')"
    by blast
  have fo: "fo = ''reV_node07.h5''"
    using s by (simp add: get_node_name_fout_def node_name_lim_def f endswith_def
        suffix_to_prefix str_strip_def)
  have fo': "fo' = ''reV_node07.h5''"
    using p by (simp add: get_node_name_fout_def node_name_lim_def f endswith_def
        suffix_to_prefix str_strip_def)
  show ?thesis using s p fo fo' f by simp
qed

text \<open>
  Claim C10. For a base output filename \<open>stem.h5\<close> whose stem neither begins nor ends
  with one of the characters \<open>.\<close>, \<open>h\<close>, \<open>5\<close>, the node output filename is the stem, then
  \<open>_node\<close>, the node index in the format \<open>02d\<close> (two digits for nodes 0 to 99) and
  \<open>.h5\<close>. For \<open>birch.h5\<close> the stem ends with \<open>h\<close>, which is removed as well: the result is
  \<open>birc_node00.h5\<close>, not \<open>birch_node00.h5\<close>.
\<close>

theorem node_fout_strips_characters:
  "(\<forall>stem hpc name i.
      (hpc = ''slurm'' \<or> hpc = ''pbs'') \<and>
      (stem = [] \<or> (hd stem \<notin> set ''.h5'' \<and> last stem \<notin> set ''.h5'')) \<longrightarrow>
      (\<exists>node_name. get_node_name_fout name (stem @ ''.h5'') i hpc =
         Inr (node_name, stem @ ''_node'' @ format_02d i @ ''.h5'')) \<and>
      (0 \<le> i \<and> i < 100 \<longrightarrow> length (format_02d i) = 2)) \<and>
   (\<exists>node_name. get_node_name_fout name0 ''birch.h5'' 0 ''slurm'' =
      Inr (node_name, ''birc_node00.h5'')) \<and>
   ''birc_node00.h5'' \<noteq> ''birch'' @ ''_node'' @ format_02d 0 @ ''.h5''"
proof (intro conjI allI impI)
  fix stem hpc :: string and name :: string and i :: int
  assume h: "(hpc = ''slurm'' \<or> hpc = ''pbs'') \<and>
      (stem = [] \<or> (hd stem \<notin> set ''.h5'' \<and> last stem \<notin> set ''.h5''))"
  then have "str_strip ''.h5'' (stem @ ''.h5'') = stem"
    by (intro str_strip_stem) auto
  moreover from h obtain lim where "node_name_lim hpc = Some lim"
    by (auto simp: node_name_lim_def)
  ultimately show "\<exists>node_name. get_node_name_fout name (stem @ ''.h5'') i hpc =
         Inr (node_name, stem @ ''_node'' @ format_02d i @ ''.h5'')"
    by (simp add: get_node_name_fout_def)
next
  fix i :: int
  assume "0 \<le> i \<and> i < 100"
  then show "length (format_02d i) = 2" by (simp add: length_format_02d_two)
next
  show "\<exists>node_name. get_node_name_fout name0 ''birch.h5'' 0 ''slurm'' =
      Inr (node_name, ''birc_node00.h5'')"
    by (simp add: get_node_name_fout_def node_name_lim_def format_02d_def zfill_def
        str_nat.simps digit_char_def endswith_def suffix_to_prefix str_strip_def)
next
  show "''birc_node00.h5'' \<noteq> ''birch'' @ ''_node'' @ format_02d 0 @ ''.h5''"
    by simp
qed

theorem node_fout_strips_characters_witness:
  "get_node_name_fout ''reV'' ''gen_2012.h5'' 3 ''pbs'' = Inr (''reV03'', ''gen_2012_node03.h5'') \<and>
   get_node_name_fout ''reV'' ''birch.h5'' 0 ''slurm'' = Inr (''reV00'', ''birc_node00.h5'')"
proof -
  have f: "format_02d 3 = ''03''" "format_02d 0 = ''00''"
    by (simp_all add: format_02d_def zfill_def str_nat.simps digit_char_def)
  have stem: "(''pbs'' = ''slurm'' \<or> ''pbs'' = ''pbs'') \<and>
      (''gen_2012'' = [] \<or> (hd ''gen_2012'' \<notin> set ''.h5'' \<and> last ''gen_2012'' \<notin> set ''.h5''))"
    by simp
  from node_fout_strips_characters [of "''reV''"] stem
  have "\<exists>node_name. get_node_name_fout ''reV'' (''gen_2012'' @ ''.h5'') 3 ''pbs'' =
      Inr (node_name, ''gen_2012'' @ ''_node'' @ format_02d 3 @ ''.h5'')"
    by blast
  then have a: "get_node_name_fout ''reV'' ''gen_2012.h5'' 3 ''pbs'' =
      Inr (''reV03'', ''gen_2012_node03.h5'')"
    by (auto simp: get_node_name_fout_def node_name_lim_def f)
  from node_fout_strips_characters [of "''reV''"]
  have "\<exists>node_name. get_node_name_fout ''reV'' ''birch.h5'' 0 ''slurm'' =
      Inr (node_name, ''birc_node00.h5'')"
    by blast
  then have b: "get_node_name_fout ''reV'' ''birch.h5'' 0 ''slurm'' = Inr (''reV00'', ''birc_node00.h5'')"
    by (auto simp: get_node_name_fout_def node_name_lim_def f)
  from a b show ?thesis by simp
qed

section \<open>Properties of the Result Table\<close>














section \<open>Properties of the time index\<close>

lemma index_mask_map: "index_mask xs (map P xs) = filter P xs"
  by (induction xs) (simp_all add: index_mask_def)

lemma index_drop_filter: "index_drop xs (filter P xs) = Inr (filter (\<lambda>x. \<not> P x) xs)"
proof -
  have "filter (\<lambda>x. x \<notin> set (filter P xs)) xs = filter (\<lambda>x. \<not> P x) xs"
    by (rule filter_cong) auto
  then show ?thesis by (simp add: index_drop_def)
qed

text \<open>
  Claim C7. The first read of \<open>time_index\<close> returns (and stores) the raw time index of the
  resource without the entries whose month is 2 and whose day is 29: the other entries
  stay, in their order. A raw time index with no such entry is returned unchanged.
  Every later read returns the stored index.
\<close>

theorem time_index_drops_leap_day:
  assumes "attr_time_index g = None" and "Resource_time_index (attr_res_file g) = Inr raw"
  shows "time_index Resource_time_index g =
           Inr (filter (\<lambda>t. \<not> (month t = 2 \<and> day t = 29)) raw,
                g\<lparr>attr_time_index := Some (filter (\<lambda>t. \<not> (month t = 2 \<and> day t = 29)) raw)\<rparr>) \<and>
         ((\<forall>t \<in> set raw. \<not> (month t = 2 \<and> day t = 29)) \<longrightarrow>
            time_index Resource_time_index g = Inr (raw, g\<lparr>attr_time_index := Some raw\<rparr>)) \<and>
         (\<forall>ti g'. time_index Resource_time_index g = Inr (ti, g') \<longrightarrow>
            time_index Resource_time_index g' = Inr (ti, g'))"
proof -
  have first: "time_index Resource_time_index g =
           Inr (filter (\<lambda>t. \<not> (month t = 2 \<and> day t = 29)) raw,
                g\<lparr>attr_time_index := Some (filter (\<lambda>t. \<not> (month t = 2 \<and> day t = 29)) raw)\<rparr>)"
    using assms by (simp add: time_index_def index_mask_map index_drop_filter)
  have "filter (\<lambda>t. \<not> (month t = 2 \<and> day t = 29)) raw = raw"
    if "\<forall>t \<in> set raw. \<not> (month t = 2 \<and> day t = 29)"
    using that by (simp only: filter_True)
  moreover have "time_index Resource_time_index g' = Inr (ti, g')"
    if "time_index Resource_time_index g = Inr (ti, g')" for ti g'
    using that first by (auto simp: time_index_def)
  ultimately show ?thesis using first by simp
qed

theorem time_index_drops_leap_day_witness:
  "time_index (\<lambda>f. Inr [ts 2012 2 28, ts 2012 2 29, ts 2012 3 1]) stub_gen =
     Inr ([ts 2012 2 28, ts 2012 3 1],
          stub_gen\<lparr>attr_time_index := Some [ts 2012 2 28, ts 2012 3 1]\<rparr>) \<and>
   time_index (\<lambda>f. Inr [ts 2013 2 28, ts 2013 3 1]) stub_gen =
     Inr ([ts 2013 2 28, ts 2013 3 1],
          stub_gen\<lparr>attr_time_index := Some [ts 2013 2 28, ts 2013 3 1]\<rparr>)"
proof -
  have fresh: "attr_time_index stub_gen = None"
    by (simp add: stub_gen_def Gen_init_def)
  have leap: "(\<lambda>f. Inr [ts 2012 2 28, ts 2012 2 29, ts 2012 3 1]) (attr_res_file stub_gen) =
      (Inr [ts 2012 2 28, ts 2012 2 29, ts 2012 3 1] :: py_exception + timestamp list)"
    by simp
  have plain: "(\<lambda>f. Inr [ts 2013 2 28, ts 2013 3 1]) (attr_res_file stub_gen) =
      (Inr [ts 2013 2 28, ts 2013 3 1] :: py_exception + timestamp list)"
    by simp
  have none: "\<forall>t \<in> set [ts 2013 2 28, ts 2013 3 1]. \<not> (month t = 2 \<and> day t = 29)"
    by (simp add: ts_def)
  from time_index_drops_leap_day [OF fresh leap]
  have "time_index (\<lambda>f. Inr [ts 2012 2 28, ts 2012 2 29, ts 2012 3 1]) stub_gen =
     Inr ([ts 2012 2 28, ts 2012 3 1],
          stub_gen\<lparr>attr_time_index := Some [ts 2012 2 28, ts 2012 3 1]\<rparr>)"
    by (simp add: ts_def)
  moreover from time_index_drops_leap_day [OF fresh plain] none
  have "time_index (\<lambda>f. Inr [ts 2013 2 28, ts 2013 3 1]) stub_gen =
     Inr ([ts 2013 2 28, ts 2013 3 1],
          stub_gen\<lparr>attr_time_index := Some [ts 2013 2 28, ts 2013 3 1]\<rparr>)"
    by blast
  ultimately show ?thesis by simp
qed

section \<open>Properties of the chunk size\<close>

lemma lower_nsrdb: "str_lower ''ri_100_NSRDB_2012.h5'' = ''ri_100_nsrdb_2012.h5''"
  by (simp add: str_lower_def lower_char_def)

text \<open>
  Claim C6, as stated, fails: for a resource file whose name holds neither \<open>wtk\<close> nor
  \<open>nsrdb\<close> the chunk size is not derived and the fallback is not taken, although the
  file opens and its dataset \<open>dni\<close> has no chunking: \<open>sites_per_core\<close> raises.
\<close>

theorem sites_per_core_counterexample:
  "h5_chunks nsrdb_unchunked ''dni'' = Some None \<and>
   (\<exists>msg. run_smart_sites_per_split (\<lambda>f. Inr nsrdb_unchunked) ''ri_100_2012.h5'' None =
      Inl (PyException ''Exception'' msg))"
  by (simp add: run_smart_sites_per_split_def sites_per_core_def nsrdb_unchunked_def
      str_lower_def lower_char_def str_contains_def sublist_Cons_right)

text \<open>
  Claim C6, amended. When the chunk size is unspecified and the resource file opens:
  if the lower-cased file name contains \<open>wtk\<close> and a dataset has \<open>speed\<close> in its name, or
  the name does not contain \<open>wtk\<close> but contains \<open>nsrdb\<close> and the file has the dataset
  \<open>dni\<close>, the chunk size is the second entry of that dataset's chunk shape, and the fixed
  default 100 when the dataset has no chunking. For a file name that contains neither
  \<open>wtk\<close> nor \<open>nsrdb\<close> an \<open>Exception\<close> is raised. A specified chunk size is kept.
\<close>

theorem sites_per_core_from_chunking:
  assumes "Resource res_file = Inr res"
  shows "((str_contains ''wtk'' (str_lower res_file) \<and>
             find (str_contains ''speed'') (dsets res) = Some dset \<and>
             h5_chunks res dset = Some ch) \<or>
          (\<not> str_contains ''wtk'' (str_lower res_file) \<and>
             str_contains ''nsrdb'' (str_lower res_file) \<and> dset = ''dni'' \<and>
             h5_chunks res dset = Some ch) \<longrightarrow>
            (ch = None \<longrightarrow> run_smart_sites_per_split Resource res_file None = Inr 100) \<and>
            (\<forall>c. ch = Some c \<and> 1 < length c \<longrightarrow>
               run_smart_sites_per_split Resource res_file None = Inr (c ! 1))) \<and>
         (\<not> str_contains ''wtk'' (str_lower res_file) \<and>
          \<not> str_contains ''nsrdb'' (str_lower res_file) \<longrightarrow>
            (\<exists>msg. run_smart_sites_per_split Resource res_file None =
               Inl (PyException ''Exception'' msg))) \<and>
         run_smart_sites_per_split Resource res_file (Some n) = Inr n"
  using assms
  by (auto simp: run_smart_sites_per_split_def sites_per_core_def h5_getitem_chunks_def)

theorem sites_per_core_from_chunking_witness:
  "run_smart_sites_per_split (\<lambda>f. Inr nsrdb_chunked) ''ri_100_NSRDB_2012.h5'' None = Inr 25 \<and>
   run_smart_sites_per_split (\<lambda>f. Inr nsrdb_unchunked) ''ri_100_NSRDB_2012.h5'' None = Inr 100 \<and>
   run_smart_sites_per_split (\<lambda>f. Inr wtk_chunked) ''ri_wtk_2012.h5'' None = Inr 50"
proof -
  have n: "\<not> str_contains ''wtk'' (str_lower ''ri_100_NSRDB_2012.h5'')"
    "str_contains ''nsrdb'' (str_lower ''ri_100_NSRDB_2012.h5'')"
    by (simp_all add: lower_nsrdb str_contains_def sublist_Cons_right)
  have w: "str_contains ''wtk'' (str_lower ''ri_wtk_2012.h5'')"
    by (simp add: str_lower_def lower_char_def str_contains_def sublist_Cons_right)
  have s: "find (str_contains ''speed'') (dsets wtk_chunked) = Some ''windspeed_100m''"
    by (simp add: wtk_chunked_def str_contains_def sublist_Cons_right)
  have c1: "h5_chunks nsrdb_chunked ''dni'' = Some (Some [8760, 25])"
    by (simp add: nsrdb_chunked_def)
  have c2: "h5_chunks nsrdb_unchunked ''dni'' = Some None"
    by (simp add: nsrdb_unchunked_def)
  have c3: "h5_chunks wtk_chunked ''windspeed_100m'' = Some (Some [8760, 50])"
    by (simp add: wtk_chunked_def)
  have "run_smart_sites_per_split (\<lambda>f. Inr nsrdb_chunked) ''ri_100_NSRDB_2012.h5'' None =
      Inr ([8760, 25] ! 1)"
    using sites_per_core_from_chunking
      [of "\<lambda>f. Inr nsrdb_chunked" "''ri_100_NSRDB_2012.h5''" nsrdb_chunked "''dni''"
        "Some [8760, 25]"]
      n c1
    by simp
  moreover
  have "run_smart_sites_per_split (\<lambda>f. Inr nsrdb_unchunked) ''ri_100_NSRDB_2012.h5'' None = Inr 100"
    using sites_per_core_from_chunking
      [of "\<lambda>f. Inr nsrdb_unchunked" "''ri_100_NSRDB_2012.h5''" nsrdb_unchunked "''dni''" None]
      n c2
    by simp
  moreover
  have "run_smart_sites_per_split (\<lambda>f. Inr wtk_chunked) ''ri_wtk_2012.h5'' None =
      Inr ([8760, 50] ! 1)"
    using sites_per_core_from_chunking
      [of "\<lambda>f. Inr wtk_chunked" "''ri_wtk_2012.h5''" wtk_chunked "''windspeed_100m''"
        "Some [8760, 50]"]
      w s c3
    by simp
  ultimately show ?thesis by simp
qed

section \<open>Properties of the output file names\<close>

lemma tag_at_Some:
  "tag_at s = Some g \<Longrightarrow>
     \<exists>rest. s = ''_x'' @ g @ rest \<and> length g = 3 \<and> (\<forall>c \<in> set g. is_digit c)"
  by (cases s rule: tag_at.cases) (auto split: if_splits)

lemma re_match_tag_Some:
  "re_match_tag s = Some g \<Longrightarrow>
     \<exists>pre rest. s = pre @ ''_x'' @ g @ rest \<and> CHR 0x0A \<notin> set pre \<and> length g = 3 \<and>
       (\<forall>c \<in> set g. is_digit c)"
proof (induction s)
  case Nil
  then show ?case by simp
next
  case (Cons c cs)
  show ?case
  proof (cases "c \<noteq> CHR 0x0A \<and> re_match_tag cs \<noteq> None")
    case True
    then have "re_match_tag cs = Some g" using Cons.prems by auto
    from Cons.IH [OF this] obtain pre rest where
      "cs = pre @ ''_x'' @ g @ rest" "CHR 0x0A \<notin> set pre" "length g = 3" "\<forall>c \<in> set g. is_digit c"
      by blast
    then have "c # cs = (c # pre) @ ''_x'' @ g @ rest \<and> CHR 0x0A \<notin> set (c # pre) \<and> length g = 3 \<and>
       (\<forall>c \<in> set g. is_digit c)"
      using True by auto
    then show ?thesis by blast
  next
    case False
    then have "tag_at (c # cs) = Some g" using Cons.prems by (auto split: if_splits)
    from tag_at_Some [OF this] obtain rest where
      "c # cs = [] @ ''_x'' @ g @ rest \<and> CHR 0x0A \<notin> set [] \<and> length g = 3 \<and>
        (\<forall>c \<in> set g. is_digit c)"
      by auto
    then show ?thesis by blast
  qed
qed

lemma re_match_tag_at:
  assumes "tag_at (c # cs) = Some g"
  shows "re_match_tag (c # cs) \<noteq> None"
proof (cases "if c = CHR 0x0A then None else re_match_tag cs")
  case None
  then show ?thesis using assms by simp
next
  case (Some a)
  then show ?thesis by simp
qed

lemma re_match_tag_later:
  assumes "c \<noteq> CHR 0x0A" and "re_match_tag cs \<noteq> None"
  shows "re_match_tag (c # cs) \<noteq> None"
  using assms by auto

lemma re_match_tag_complete:
  assumes "CHR 0x0A \<notin> set pre" and "is_digit d1" and "is_digit d2" and "is_digit d3"
  shows "re_match_tag (pre @ ''_x'' @ d1 # d2 # d3 # rest) \<noteq> None"
  using assms(1)
proof (induction pre)
  case Nil
  have "tag_at (CHR ''_'' # CHR ''x'' # d1 # d2 # d3 # rest) = Some [d1, d2, d3]"
    using assms(2-4) by simp
  then have "re_match_tag (CHR ''_'' # CHR ''x'' # d1 # d2 # d3 # rest) \<noteq> None"
    by (rule re_match_tag_at)
  then show ?case by (simp del: re_match_tag.simps)
next
  case (Cons c pre)
  then have "c \<noteq> CHR 0x0A" and "re_match_tag (pre @ ''_x'' @ d1 # d2 # d3 # rest) \<noteq> None"
    by auto
  then have "re_match_tag (c # pre @ ''_x'' @ d1 # d2 # d3 # rest) \<noteq> None"
    by (rule re_match_tag_later)
  then show ?case by (simp del: re_match_tag.simps)
qed

lemma str_replace_occurrence:
  assumes "old \<noteq> []" and "CHR 0x0A \<notin> set pre"
  shows "\<exists>pre' rest'. str_replace old new (pre @ old @ rest) = pre' @ new @ rest' \<and>
           CHR 0x0A \<notin> set pre'"
  using assms(2)
proof (induction pre)
  case Nil
  obtain c cs where s: "old @ rest = c # cs" using assms(1) by (cases old) auto
  have "prefix old (old @ rest)" by simp
  then have "prefix old (c # cs)" using s by simp
  then have "str_replace old new (c # cs) = [] @ new @ str_replace old new (drop (length old) (c # cs))"
    using assms(1) by simp
  then have "str_replace old new ([] @ old @ rest) =
      [] @ new @ str_replace old new (drop (length old) (c # cs)) \<and> CHR 0x0A \<notin> set []"
    using s by simp
  then show ?case by blast
next
  case (Cons c pre)
  then obtain pre' rest' where ih: "str_replace old new (pre @ old @ rest) = pre' @ new @ rest'"
    "CHR 0x0A \<notin> set pre'" by auto
  show ?case
  proof (cases "prefix old (c # pre @ old @ rest)")
    case True
    then have "str_replace old new ((c # pre) @ old @ rest) =
        [] @ new @ str_replace old new (drop (length old) (c # pre @ old @ rest))"
      using assms(1) by simp
    then have "str_replace old new ((c # pre) @ old @ rest) =
        [] @ new @ str_replace old new (drop (length old) (c # pre @ old @ rest)) \<and>
        CHR 0x0A \<notin> set []"
      by simp
    then show ?thesis by blast
  next
    case False
    then have "str_replace old new ((c # pre) @ old @ rest) = (c # pre') @ new @ rest'"
      using assms(1) ih(1) by simp
    moreover have "CHR 0x0A \<notin> set (c # pre')" using Cons.prems ih(2) by simp
    ultimately show ?thesis by blast
  qed
qed

lemma digit_char_is_digit: "d < 10 \<Longrightarrow> is_digit (digit_char d)"
proof -
  assume "d < 10"
  then have "d < length ''0123456789''" by simp
  then have "''0123456789'' ! d \<in> set ''0123456789''" by (rule nth_mem)
  then show ?thesis by (simp only: is_digit_def digit_char_def)
qed

lemma str_nat_digits: "\<forall>c \<in> set (str_nat n). is_digit c"
proof (induction n rule: str_nat.induct)
  case (1 n)
  show ?case
  proof (cases "n < 10")
    case True
    then show ?thesis by (subst str_nat.simps) (simp add: digit_char_is_digit)
  next
    case False
    then have "\<forall>c \<in> set (str_nat (n div 10)). is_digit c" using 1 by simp
    then show ?thesis using False
      by (subst str_nat.simps) (simp add: digit_char_is_digit)
  qed
qed

lemma zfill_digits:
  assumes "\<forall>c \<in> set s. is_digit c"
  shows "\<forall>c \<in> set (zfill w s). is_digit c"
proof -
  have "is_digit (CHR ''0'')" by (simp add: is_digit_def)
  with assms show ?thesis by (auto simp: zfill_def)
qed

lemma length_zfill: "w \<le> length (zfill w s)"
  by (simp add: zfill_def)

lemma new_tag_shape:
  "\<exists>d1 d2 d3 more. new_tag g = ''_x'' @ d1 # d2 # d3 # more \<and> is_digit d1 \<and> is_digit d2 \<and> is_digit d3"
proof -
  let ?z = "zfill 3 (str_nat (int_of_digits g + 1))"
  have len: "3 \<le> length ?z" by (rule length_zfill)
  have dig: "\<forall>c \<in> set ?z. is_digit c" by (rule zfill_digits) (rule str_nat_digits)
  from len obtain d1 d2 d3 more where z: "?z = d1 # d2 # d3 # more"
    by (cases ?z; cases "tl ?z"; cases "tl (tl ?z)") auto
  with dig have "is_digit d1 \<and> is_digit d2 \<and> is_digit d3" by simp
  with z have "new_tag g = ''_x'' @ d1 # d2 # d3 # more \<and> is_digit d1 \<and> is_digit d2 \<and> is_digit d3"
    by (simp add: new_tag_def)
  then show ?thesis by blast
qed

lemma bump_tag_keeps_tag:
  assumes "re_match_tag s \<noteq> None"
  shows "re_match_tag (bump_tag s) \<noteq> None"
proof -
  from assms obtain g where g: "re_match_tag s = Some g" by auto
  from re_match_tag_Some [OF g] obtain pre rest where
    s: "s = pre @ (''_x'' @ g) @ rest" and pre: "CHR 0x0A \<notin> set pre"
    by auto
  have "''_x'' @ g \<noteq> []" by simp
  from str_replace_occurrence [OF this pre, of "new_tag g" rest] obtain pre' rest' where
    r: "str_replace (''_x'' @ g) (new_tag g) s = pre' @ new_tag g @ rest'" and
    pre': "CHR 0x0A \<notin> set pre'"
    using s by auto
  from new_tag_shape [of g] obtain d1 d2 d3 more where
    n: "new_tag g = ''_x'' @ d1 # d2 # d3 # more" and d: "is_digit d1" "is_digit d2" "is_digit d3"
    by blast
  have "re_match_tag (pre' @ ''_x'' @ d1 # d2 # d3 # (more @ rest')) \<noteq> None"
    using pre' d by (rule re_match_tag_complete)
  then show ?thesis using g r n by (simp add: bump_tag_def)
qed

lemma get_unique_fout_step:
  "exists s \<Longrightarrow> re_match_tag s \<noteq> None \<Longrightarrow> get_unique_fout exists s = get_unique_fout exists (bump_tag s)"
  by (subst get_unique_fout.simps) (auto simp: bump_tag_def)

lemma get_unique_fout_free: "\<not> exists s \<Longrightarrow> get_unique_fout exists s = Some s"
  by (subst get_unique_fout.simps) simp

lemma get_unique_fout_not_existing:
  assumes "get_unique_fout exists s = Some p" and "re_match_tag s \<noteq> None"
  shows "\<not> exists p"
proof -
  have "re_match_tag s \<noteq> None \<longrightarrow> \<not> exists p"
  proof (rule get_unique_fout.raw_induct
      [where P = "\<lambda>ex s p. re_match_tag s \<noteq> None \<longrightarrow> \<not> ex p", OF _ assms(1)])
    fix rec ex fout y
    assume IH: "\<And>a b y. rec a b = Some y \<Longrightarrow> re_match_tag b \<noteq> None \<longrightarrow> \<not> a y"
      and eq: "(if ex fout then
                  case re_match_tag fout of
                    None \<Rightarrow> Some fout
                  | Some g \<Rightarrow> rec ex (str_replace (''_x'' @ g) (new_tag g) fout)
                else Some fout) = Some y"
    show "re_match_tag fout \<noteq> None \<longrightarrow> \<not> ex y"
    proof
      assume tag: "re_match_tag fout \<noteq> None"
      show "\<not> ex y"
      proof (cases "ex fout")
        case True
        from tag obtain g where g: "re_match_tag fout = Some g" by auto
        with True eq have call: "rec ex (str_replace (''_x'' @ g) (new_tag g) fout) = Some y"
          by simp
        have "re_match_tag (bump_tag fout) \<noteq> None" using tag by (rule bump_tag_keeps_tag)
        then have "re_match_tag (str_replace (''_x'' @ g) (new_tag g) fout) \<noteq> None"
          using g by (simp add: bump_tag_def)
        with IH [OF call] show ?thesis by simp
      next
        case False
        with eq have "y = fout" by simp
        with False show ?thesis by simp
      qed
    qed
  qed
  with assms(2) show ?thesis by simp
qed

lemma get_unique_fout_first_free:
  assumes "re_match_tag s \<noteq> None"
    and "\<forall>j < k. exists ((bump_tag ^^ j) s)"
    and "\<not> exists ((bump_tag ^^ k) s)"
  shows "get_unique_fout exists s = Some ((bump_tag ^^ k) s)"
  using assms
proof (induction k arbitrary: s)
  case 0
  then show ?case by (simp add: get_unique_fout_free)
next
  case (Suc k)
  have "exists ((bump_tag ^^ 0) s)" using Suc.prems(2) by blast
  then have ex: "exists s" by simp
  have tag: "re_match_tag (bump_tag s) \<noteq> None" using Suc.prems(1) by (rule bump_tag_keeps_tag)
  have "\<forall>j < k. exists ((bump_tag ^^ j) (bump_tag s))"
  proof (intro allI impI)
    fix j assume "j < k"
    then have "Suc j < Suc k" by simp
    then have "exists ((bump_tag ^^ Suc j) s)" using Suc.prems(2) by blast
    then show "exists ((bump_tag ^^ j) (bump_tag s))" by (simp add: funpow_swap1)
  qed
  moreover have "\<not> exists ((bump_tag ^^ k) (bump_tag s))"
    using Suc.prems(3) by (simp add: funpow_swap1)
  ultimately have "get_unique_fout exists (bump_tag s) = Some ((bump_tag ^^ k) (bump_tag s))"
    using tag by (intro Suc.IH)
  then show ?case using ex Suc.prems(1) by (simp add: get_unique_fout_step funpow_swap1)
qed

lemma os_path_join_h5:
  assumes "CHR 0x0A \<notin> set d" and "CHR 0x0A \<notin> set stem"
  shows "\<exists>stem'. os_path_join d (stem @ ''.h5'') = stem' @ ''.h5'' \<and> CHR 0x0A \<notin> set stem'"
proof -
  have "os_path_join d (stem @ ''.h5'') = stem @ ''.h5'' \<or>
        os_path_join d (stem @ ''.h5'') = (d @ stem) @ ''.h5'' \<or>
        os_path_join d (stem @ ''.h5'') = (d @ ''/'' @ stem) @ ''.h5''"
    by (simp add: os_path_join_def)
  moreover have "CHR 0x0A \<notin> set (d @ stem)" "CHR 0x0A \<notin> set (d @ ''/'' @ stem)"
    using assms by simp_all
  ultimately show ?thesis using assms(2) by blast
qed

lemma handle_fout_request_shape:
  assumes "CHR 0x0A \<notin> set fout" and "\<forall>d. dirout = Some d \<longrightarrow> CHR 0x0A \<notin> set d"
  shows "\<exists>stem. fst (handle_fout_request st fout dirout) =
           str_replace ''.h5'' ''_x000.h5'' (stem @ ''.h5'') \<and> CHR 0x0A \<notin> set stem"
proof -
  obtain stem1 where s1: "(if \<not> endswith fout ''.h5'' then fout @ ''.h5'' else fout) = stem1 @ ''.h5''"
    and n1: "CHR 0x0A \<notin> set stem1"
  proof (cases "endswith fout ''.h5''")
    case True
    then obtain stem where "fout = stem @ ''.h5''" by (auto simp: endswith_def suffix_def)
    then show ?thesis using that [of stem] True assms(1) by simp
  next
    case False
    then show ?thesis using that [of fout] assms(1) by simp
  qed
  show ?thesis
  proof (cases "\<exists>d. dirout = Some d \<and> d \<noteq> []")
    case True
    then obtain d where d: "dirout = Some d" "d \<noteq> []" by blast
    then have "CHR 0x0A \<notin> set d" using assms(2) by simp
    from os_path_join_h5 [OF this n1] obtain stem' where
      "os_path_join d (stem1 @ ''.h5'') = stem' @ ''.h5''" "CHR 0x0A \<notin> set stem'" by blast
    then have "fst (handle_fout_request st fout dirout) =
           str_replace ''.h5'' ''_x000.h5'' (stem' @ ''.h5'') \<and> CHR 0x0A \<notin> set stem'"
      using d s1 by (auto simp: handle_fout_request_def split: if_splits)
    then show ?thesis by blast
  next
    case False
    then have "fst (handle_fout_request st fout dirout) =
           str_replace ''.h5'' ''_x000.h5'' (stem1 @ ''.h5'') \<and> CHR 0x0A \<notin> set stem1"
      using s1 n1 by (cases dirout) (auto simp: handle_fout_request_def split: if_splits)
    then show ?thesis by blast
  qed
qed

lemma handle_fout_request_tagged:
  assumes "CHR 0x0A \<notin> set fout" and "\<forall>d. dirout = Some d \<longrightarrow> CHR 0x0A \<notin> set d"
  shows "re_match_tag (fst (handle_fout_request st fout dirout)) \<noteq> None"
proof -
  from handle_fout_request_shape [OF assms] obtain stem where
    r: "fst (handle_fout_request st fout dirout) = str_replace ''.h5'' ''_x000.h5'' (stem @ ''.h5'')"
    and n: "CHR 0x0A \<notin> set stem" by blast
  have "''.h5'' \<noteq> []" by simp
  from str_replace_occurrence [OF this n, of "''_x000.h5''" "[]"] obtain pre' rest' where
    p: "str_replace ''.h5'' ''_x000.h5'' (stem @ ''.h5'') = pre' @ ''_x000.h5'' @ rest'"
    and n': "CHR 0x0A \<notin> set pre'" by auto
  have z: "is_digit (CHR ''0'')" by (simp add: is_digit_def)
  have "re_match_tag (pre' @ ''_x'' @ CHR ''0'' # CHR ''0'' # CHR ''0'' # (''.h5'' @ rest')) \<noteq> None"
    using n' z z z by (rule re_match_tag_complete)
  then show ?thesis using r p by (simp del: re_match_tag.simps)
qed

lemma handle_fout_unfold:
  "handle_fout st fout dirout =
     (case get_unique_fout (path_exists (snd (handle_fout_request st fout dirout)))
             (fst (handle_fout_request st fout dirout)) of
        None \<Rightarrow> None
      | Some unique \<Rightarrow> Some (unique, snd (handle_fout_request st fout dirout)))"
  by (simp add: handle_fout_def case_prod_beta)

lemma handle_fout_request_extension:
  assumes "\<not> endswith fout ''.h5''"
  shows "handle_fout_request st fout dirout =
     handle_fout_request (st\<lparr>warnings := warnings st @ [h5_warning (fout @ ''.h5'')]\<rparr>)
       (fout @ ''.h5'') dirout"
  using assms by (simp add: handle_fout_request_def)

lemma warnings_handle_fout_request:
  "warnings (snd (handle_fout_request st fout dirout)) =
     (if \<not> endswith fout ''.h5'' then warnings st @ [h5_warning (fout @ ''.h5'')] else warnings st)"
  by (cases dirout) (simp_all add: handle_fout_request_def os_makedirs_def)

text \<open>
  Claim C8 against the code. \<open>get_unique_fout\<close> is documented to ensure a unique tag on
  the file name, but for a path with a newline before the tag the expression
  \<open>.*_x([0-9]{3})\<close> does not match (\<open>.\<close> stops at the newline): \<open>get_unique_fout\<close>
  returns the name as it is, \<open>handle_fout\<close> returns the path of a file that exists, and
  \<open>flush\<close> hands that path to the Output Writer, whose write in mode \<open>w\<close> replaces the
  file.
\<close>

theorem handle_fout_newline_path_exists:
  "path_exists newline_state (newline_dir @ ''/x_x000.h5'') \<and>
   re_match_tag (newline_dir @ ''/x_x000.h5'') = None \<and>
   handle_fout newline_state ''x.h5'' (Some newline_dir) =
     Some (newline_dir @ ''/x_x000.h5'', newline_state) \<and>
   (\<exists>g' st'.
      flush stub_to_disk stub_to_disk gen_newline ''w'' newline_state = Some (Inr (g', st')) \<and>
      log_records st' =
        [''Flushing generation outputs to disk, target file: '' @ newline_dir @ ''/x_x000.h5'',
         ''Flushed generation output successfully to disk.''])"
proof -
  have target: "handle_fout newline_state ''x.h5'' (Some newline_dir) =
      Some (newline_dir @ ''/x_x000.h5'', newline_state)"
    by (simp add: handle_fout_def handle_fout_request_def newline_state_def newline_dir_def
        get_unique_fout.simps os_path_join_def endswith_def suffix_to_prefix)
  have "attr_fout gen_newline = Some ''x.h5''" "attr_dirout gen_newline = Some newline_dir"
    "out_getter gen_newline = (record_a, gen_newline)" "record_a \<noteq> Map.empty"
    "log_records newline_state = []"
    by (simp_all add: gen_newline_def gen_a_def stub_gen_def Gen_init_def out_getter_def
        record_a_def newline_state_def)
  then have written: "\<exists>g' st'.
      flush stub_to_disk stub_to_disk gen_newline ''w'' newline_state = Some (Inr (g', st')) \<and>
      log_records st' =
        [''Flushing generation outputs to disk, target file: '' @ newline_dir @ ''/x_x000.h5'',
         ''Flushed generation output successfully to disk.'']"
    by (simp add: flush_def target stub_to_disk_def)
  have "path_exists newline_state (newline_dir @ ''/x_x000.h5'')"
    by (simp add: newline_state_def)
  moreover have "re_match_tag (newline_dir @ ''/x_x000.h5'') = None"
    by (simp add: newline_dir_def)
  ultimately show ?thesis using target written by blast
qed

text \<open>
  For a file name and an output directory without a newline character the output names
  are unique: \<open>handle_fout\<close> never returns a path that exists; it puts the tag
  \<open>_x000\<close> before the extension and, while the name exists, goes on to the name with
  the next tag, returning the first name of that sequence that does not exist whenever
  there is one; a name that does not end in \<open>.h5\<close> gets the extension appended, with a
  warning and no error. When only \<open>x.h5\<close> exists the request \<open>x.h5\<close> gives \<open>x_x000.h5\<close>,
  and once that file exists too the same request gives \<open>x_x001.h5\<close>. (The depth of the
  recursion is not bounded here, as it is by the interpreter's recursion limit.)
\<close>

theorem handle_fout_unique_name:
  assumes "CHR 0x0A \<notin> set fout" and "\<forall>d. dirout = Some d \<longrightarrow> CHR 0x0A \<notin> set d"
  shows "(\<forall>unique st'. handle_fout st fout dirout = Some (unique, st') \<longrightarrow>
            \<not> path_exists st' unique) \<and>
         (\<forall>k. (\<forall>j < k. path_exists (snd (handle_fout_request st fout dirout))
                  ((bump_tag ^^ j) (fst (handle_fout_request st fout dirout)))) \<and>
              \<not> path_exists (snd (handle_fout_request st fout dirout))
                  ((bump_tag ^^ k) (fst (handle_fout_request st fout dirout))) \<longrightarrow>
              handle_fout st fout dirout =
                Some ((bump_tag ^^ k) (fst (handle_fout_request st fout dirout)),
                      snd (handle_fout_request st fout dirout))) \<and>
         (\<not> endswith fout ''.h5'' \<longrightarrow>
            handle_fout st fout dirout =
              handle_fout (st\<lparr>warnings := warnings st @ [h5_warning (fout @ ''.h5'')]\<rparr>)
                (fout @ ''.h5'') dirout \<and>
            (\<forall>unique st'. handle_fout st fout dirout = Some (unique, st') \<longrightarrow>
               warnings st' = warnings st @ [h5_warning (fout @ ''.h5'')])) \<and>
         handle_fout only_x_h5 ''x.h5'' None = Some (''x_x000.h5'', only_x_h5) \<and>
         handle_fout with_x000 ''x.h5'' None = Some (''x_x001.h5'', with_x000)"
proof -
  let ?req = "handle_fout_request st fout dirout"
  have tag: "re_match_tag (fst ?req) \<noteq> None"
    using assms by (rule handle_fout_request_tagged)
  have safe: "\<not> path_exists st' unique"
    if "handle_fout st fout dirout = Some (unique, st')" for unique st'
  proof -
    from that have "get_unique_fout (path_exists (snd ?req)) (fst ?req) = Some unique"
      and "st' = snd ?req"
      by (auto simp: handle_fout_unfold split: option.splits)
    then show ?thesis using tag by (auto dest: get_unique_fout_not_existing)
  qed
  have live: "handle_fout st fout dirout = Some ((bump_tag ^^ k) (fst ?req), snd ?req)"
    if "\<forall>j < k. path_exists (snd ?req) ((bump_tag ^^ j) (fst ?req))"
      and "\<not> path_exists (snd ?req) ((bump_tag ^^ k) (fst ?req))" for k
  proof -
    have "get_unique_fout (path_exists (snd ?req)) (fst ?req) = Some ((bump_tag ^^ k) (fst ?req))"
      using tag that by (rule get_unique_fout_first_free)
    then show ?thesis by (simp add: handle_fout_unfold)
  qed
  have ext: "handle_fout st fout dirout =
      handle_fout (st\<lparr>warnings := warnings st @ [h5_warning (fout @ ''.h5'')]\<rparr>)
        (fout @ ''.h5'') dirout"
    if "\<not> endswith fout ''.h5''"
    unfolding handle_fout_unfold handle_fout_request_extension [OF that] by (rule refl)
  have warn: "warnings st' = warnings st @ [h5_warning (fout @ ''.h5'')]"
    if "\<not> endswith fout ''.h5''" and "handle_fout st fout dirout = Some (unique, st')"
    for unique st'
  proof -
    from that(2) have "st' = snd ?req"
      by (auto simp: handle_fout_unfold split: option.splits)
    then show ?thesis using that(1) by (simp add: warnings_handle_fout_request)
  qed
  have first: "handle_fout only_x_h5 ''x.h5'' None = Some (''x_x000.h5'', only_x_h5)"
    by (simp add: handle_fout_def handle_fout_request_def only_x_h5_def get_unique_fout.simps
        endswith_def suffix_to_prefix)
  have second: "handle_fout with_x000 ''x.h5'' None = Some (''x_x001.h5'', with_x000)"
    by (simp add: handle_fout_def handle_fout_request_def with_x000_def get_unique_fout.simps
        endswith_def suffix_to_prefix is_digit_def new_tag_def zfill_def str_nat.simps
        digit_char_def int_of_digits_def digit_val_def numeral_2_eq_2)
  from safe live ext warn first second show ?thesis by blast
qed

theorem handle_fout_unique_name_witness:
  "handle_fout only_x_h5 ''y'' (Some ''out'') =
     Some (''out/y_x000.h5'',
           os_makedirs (only_x_h5\<lparr>warnings := [h5_warning ''y.h5'']\<rparr>) ''out'') \<and>
   \<not> path_exists (os_makedirs (only_x_h5\<lparr>warnings := [h5_warning ''y.h5'']\<rparr>) ''out'')
       ''out/y_x000.h5'' \<and>
   handle_fout only_x_h5 ''x.h5'' None = Some (''x_x000.h5'', only_x_h5) \<and>
   handle_fout with_x000 ''x.h5'' None = Some (''x_x001.h5'', with_x000)"
proof -
  have nl: "CHR 0x0A \<notin> set ''y''" "\<forall>d. Some ''out'' = Some d \<longrightarrow> CHR 0x0A \<notin> set d"
    by simp_all
  note inst = handle_fout_unique_name [OF nl, of only_x_h5]
  have req: "handle_fout_request only_x_h5 ''y'' (Some ''out'') =
      (''out/y_x000.h5'', os_makedirs (only_x_h5\<lparr>warnings := [h5_warning ''y.h5'']\<rparr>) ''out'')"
    by (simp add: handle_fout_request_def only_x_h5_def os_path_join_def endswith_def
        suffix_to_prefix)
  have free: "\<not> path_exists (os_makedirs (only_x_h5\<lparr>warnings := [h5_warning ''y.h5'']\<rparr>) ''out'')
      ''out/y_x000.h5''"
    by (simp add: os_makedirs_def only_x_h5_def path_parents_def)
  have "(\<forall>j < (0::nat). path_exists (snd (handle_fout_request only_x_h5 ''y'' (Some ''out'')))
           ((bump_tag ^^ j) (fst (handle_fout_request only_x_h5 ''y'' (Some ''out''))))) \<and>
        \<not> path_exists (snd (handle_fout_request only_x_h5 ''y'' (Some ''out'')))
           ((bump_tag ^^ 0) (fst (handle_fout_request only_x_h5 ''y'' (Some ''out''))))"
    using free by (simp add: req)
  with inst have "handle_fout only_x_h5 ''y'' (Some ''out'') =
      Some ((bump_tag ^^ 0) (fst (handle_fout_request only_x_h5 ''y'' (Some ''out''))),
            snd (handle_fout_request only_x_h5 ''y'' (Some ''out'')))"
    by blast
  then have "handle_fout only_x_h5 ''y'' (Some ''out'') =
     Some (''out/y_x000.h5'',
           os_makedirs (only_x_h5\<lparr>warnings := [h5_warning ''y.h5'']\<rparr>) ''out'')"
    by (simp add: req)
  with inst free show ?thesis by simp
qed

section \<open>Properties of \<open>flush\<close>\<close>

text \<open>
  Claim C3. \<open>flush\<close> does nothing when no output file is configured (\<open>fout\<close> is \<open>None\<close>) or
  the Result Table is empty: it returns without an error, the outside state (existing
  paths, warnings, log) is unchanged, so no file is created, and the instance changes at
  most by getting its empty table. Only when an output file is configured and the
  table is not empty is the Output Writer called, once, with the name \<open>handle_fout\<close>
  gives.
\<close>

theorem flush_skips_empty_table:
  "(attr_fout g = None \<longrightarrow> flush profiles_to_disk means_to_disk g mode st = Some (Inr (g, st))) \<and>
   (fst (out_getter g) = Map.empty \<longrightarrow>
      (\<exists>g'. flush profiles_to_disk means_to_disk g mode st = Some (Inr (g', st)) \<and>
            (g' = g \<or> g' = g\<lparr>attr_out := Some Map.empty\<rparr>))) \<and>
   (\<forall>f target st1.
      attr_fout g = Some f \<and> fst (out_getter g) \<noteq> Map.empty \<and>
      handle_fout st f (attr_dirout g) = Some (target, st1) \<longrightarrow>
      flush profiles_to_disk means_to_disk g mode st =
        (case (if str_contains ''profile'' (str_tuple (attr_output_request g))
               then profiles_to_disk
               else means_to_disk) g target mode
                (st1\<lparr>log_records := log_records st1 @
                   [''Flushing generation outputs to disk, target file: '' @ target]\<rparr>) of
           Inl e \<Rightarrow> Some (Inl e)
         | Inr (g2, st3) \<Rightarrow>
             Some (Inr (g2, st3\<lparr>log_records := log_records st3 @
               [''Flushed generation output successfully to disk.'']\<rparr>))))"
proof (intro conjI allI impI)
  assume "attr_fout g = None"
  then show "flush profiles_to_disk means_to_disk g mode st = Some (Inr (g, st))"
    by (simp add: flush_def)
next
  assume empty: "fst (out_getter g) = Map.empty"
  show "\<exists>g'. flush profiles_to_disk means_to_disk g mode st = Some (Inr (g', st)) \<and>
            (g' = g \<or> g' = g\<lparr>attr_out := Some Map.empty\<rparr>)"
  proof (cases "attr_fout g")
    case None
    then show ?thesis by (simp add: flush_def)
  next
    case (Some f)
    have "snd (out_getter g) = g \<or> snd (out_getter g) = g\<lparr>attr_out := Some Map.empty\<rparr>"
      by (simp add: out_getter_def split: option.split)
    then show ?thesis using Some empty
      by (auto simp: flush_def Let_def case_prod_beta)
  qed
next
  fix f target st1
  assume h: "attr_fout g = Some f \<and> fst (out_getter g) \<noteq> Map.empty \<and>
      handle_fout st f (attr_dirout g) = Some (target, st1)"
  then have "attr_out g \<noteq> None" by (auto simp: out_getter_def split: option.splits)
  then have same: "snd (out_getter g) = g" by (auto simp: out_getter_def)
  show "flush profiles_to_disk means_to_disk g mode st =
        (case (if str_contains ''profile'' (str_tuple (attr_output_request g))
               then profiles_to_disk
               else means_to_disk) g target mode
                (st1\<lparr>log_records := log_records st1 @
                   [''Flushing generation outputs to disk, target file: '' @ target]\<rparr>) of
           Inl e \<Rightarrow> Some (Inl e)
         | Inr (g2, st3) \<Rightarrow>
             Some (Inr (g2, st3\<lparr>log_records := log_records st3 @
               [''Flushed generation output successfully to disk.'']\<rparr>)))"
    using h same by (simp add: flush_def Let_def case_prod_beta)
qed

theorem flush_skips_empty_table_witness:
  "flush stub_to_disk stub_to_disk gen_no_fout ''w'' only_x_h5 = Some (Inr (gen_no_fout, only_x_h5)) \<and>
   (\<exists>g'. flush stub_to_disk stub_to_disk stub_gen ''w'' only_x_h5 = Some (Inr (g', only_x_h5))) \<and>
   flush stub_to_disk stub_to_disk gen_a ''w'' only_x_h5 =
     Some (Inr (gen_a,
       \<lparr>path_exists = (\<lambda>p. p = ''x.h5'' \<or> p = ''x_x000.h5''), warnings = [],
        log_records = [''Flushing generation outputs to disk, target file: x_x000.h5'',
                       ''Flushed generation output successfully to disk.'']\<rparr>))"
proof -
  have a: "attr_fout gen_no_fout = None"
    by (simp add: gen_no_fout_def)
  have b: "fst (out_getter stub_gen) = Map.empty"
    by (simp add: out_getter_def stub_gen_def Gen_init_def)
  have c: "attr_fout gen_a = Some ''x.h5'' \<and> fst (out_getter gen_a) \<noteq> Map.empty \<and>
      handle_fout only_x_h5 ''x.h5'' (attr_dirout gen_a) = Some (''x_x000.h5'', only_x_h5)"
    by (simp add: gen_a_def stub_gen_def Gen_init_def out_getter_def record_a_def
        handle_fout_def handle_fout_request_def only_x_h5_def get_unique_fout.simps
        endswith_def suffix_to_prefix)
  have p: "\<not> str_contains ''profile'' (str_tuple (attr_output_request gen_a))"
    by (simp add: gen_a_def stub_gen_def Gen_init_def str_tuple_def repr_str_def
        str_contains_def sublist_Cons_right)
  from flush_skips_empty_table [of gen_no_fout stub_to_disk stub_to_disk "''w''" only_x_h5] a
  have "flush stub_to_disk stub_to_disk gen_no_fout ''w'' only_x_h5 = Some (Inr (gen_no_fout, only_x_h5))"
    by blast
  moreover
  from flush_skips_empty_table [of stub_gen stub_to_disk stub_to_disk "''w''" only_x_h5] b
  have "\<exists>g'. flush stub_to_disk stub_to_disk stub_gen ''w'' only_x_h5 = Some (Inr (g', only_x_h5))"
    by blast
  moreover
  from flush_skips_empty_table [of gen_a stub_to_disk stub_to_disk "''w''" only_x_h5] c
  have "flush stub_to_disk stub_to_disk gen_a ''w'' only_x_h5 =
        (case (if str_contains ''profile'' (str_tuple (attr_output_request gen_a))
               then stub_to_disk
               else stub_to_disk) gen_a ''x_x000.h5'' ''w''
                (only_x_h5\<lparr>log_records := log_records only_x_h5 @
                   [''Flushing generation outputs to disk, target file: '' @ ''x_x000.h5'']\<rparr>) of
           Inl e \<Rightarrow> Some (Inl e)
         | Inr (g2, st3) \<Rightarrow>
             Some (Inr (g2, st3\<lparr>log_records := log_records st3 @
               [''Flushed generation output successfully to disk.'']\<rparr>)))"
    by blast
  then have "flush stub_to_disk stub_to_disk gen_a ''w'' only_x_h5 =
     Some (Inr (gen_a,
       \<lparr>path_exists = (\<lambda>p. p = ''x.h5'' \<or> p = ''x_x000.h5''), warnings = [],
        log_records = [''Flushing generation outputs to disk, target file: x_x000.h5'',
                       ''Flushed generation output successfully to disk.'']\<rparr>))"
    by (simp add: stub_to_disk_def only_x_h5_def)
  ultimately show ?thesis by simp
qed

section \<open>Properties of the node sub-ranges\<close>

lemma ceil_div_bounds:
  assumes "0 < b"
  shows "a \<le> ceil_div a b * b" and "ceil_div a b * b < a + b"
proof -
  have eq: "(- a) div b * b + (- a) mod b = - a" by simp
  have lo: "0 \<le> (- a) mod b" using assms by simp
  have hi: "(- a) mod b < b" using assms by simp
  have k: "ceil_div a b * b = - ((- a) div b * b)" by (simp add: ceil_div_def)
  show "a \<le> ceil_div a b * b" using eq lo k by linarith
  show "ceil_div a b * b < a + b" using eq hi k by linarith
qed

lemma ceil_div_pos:
  assumes "0 < b" and "0 < a"
  shows "0 < ceil_div a b"
proof (rule ccontr)
  assume "\<not> 0 < ceil_div a b"
  then have "ceil_div a b \<le> 0" by simp
  then have "ceil_div a b * b \<le> 0" using assms(1) by (simp add: mult_le_0_iff)
  with ceil_div_bounds(1) [OF assms(1), of a] assms(2) show False by linarith
qed

lemma chunk_count_bounds:
  fixes n k :: nat
  assumes "0 < k" and "0 < n"
  shows "n \<le> (n + k - 1) div k * k" and "((n + k - 1) div k - 1) * k < n"
    and "0 < (n + k - 1) div k"
proof -
  let ?m = "(n + k - 1) div k"
  have eq: "?m * k + (n + k - 1) mod k = n + k - 1" by simp
  have hi: "(n + k - 1) mod k < k" using assms(1) by simp
  show a: "n \<le> ?m * k" using eq hi by linarith
  show pos: "0 < ?m" using a assms(2) by (cases "?m = 0") auto
  from pos obtain m' where m: "?m = Suc m'" by (cases ?m) simp_all
  have "(?m - 1) * k + k = ?m * k" unfolding m by simp
  then show "(?m - 1) * k < n" using eq assms by linarith
qed

lemma chunk_count_le_nodes:
  fixes n k nodes :: nat
  assumes "0 < k" and "n \<le> k * nodes"
  shows "(n + k - 1) div k \<le> nodes"
proof -
  have "n + k - 1 < (nodes + 1) * k" using assms by (simp add: algebra_simps)
  then have "(n + k - 1) div k < nodes + 1" using assms(1) by (simp add: div_less_iff_less_mult)
  then show ?thesis by simp
qed

lemma split_ranges_shape:
  fixes pc :: points_control
  assumes k: "0 < sites_per_split pc" and n: "project_points pc \<noteq> []"
  defines "K \<equiv> nat (sites_per_split pc)" and "N \<equiv> length (project_points pc)"
  shows "\<exists>rs. split_ranges pc = Some rs \<and> rs \<noteq> [] \<and> length rs = (N + K - 1) div K \<and>
           fst (hd rs) = 0 \<and> snd (last rs) = N \<and>
           (\<forall>i. Suc i < length rs \<longrightarrow>
              snd (rs ! i) = fst (rs ! Suc i) \<and> snd (rs ! i) - fst (rs ! i) = K) \<and>
           fst (last rs) < snd (last rs) \<and> snd (last rs) - fst (last rs) \<le> K"
proof -
  let ?m = "(N + K - 1) div K"
  let ?f = "\<lambda>i. (i * K, min ((i + 1) * K) N)"
  let ?rs = "map ?f [0..<?m]"
  have K: "0 < K" using k by (simp add: K_def)
  have N: "0 < N" using n by (simp add: N_def)
  have cover: "N \<le> ?m * K" and before: "(?m - 1) * K < N" and m: "0 < ?m"
    using chunk_count_bounds [OF K N] by simp_all
  have sr: "split_ranges pc = Some ?rs"
    using k by (simp add: split_ranges_def Let_def K_def N_def)
  have ne: "?rs \<noteq> []" using m by simp
  have len: "length ?rs = ?m" by simp
  have hd: "fst (hd ?rs) = 0" using m by (simp add: hd_map upt_conv_Cons)
  from m obtain m' where m': "?m = Suc m'" by (cases ?m) simp_all
  have step: "(?m - 1) * K + K = ?m * K" unfolding m' by simp
  have "last ?rs = ?f m'" unfolding m' by (simp add: last_map)
  moreover have "min ((m' + 1) * K) N = N" using cover unfolding m' by simp
  ultimately have l: "last ?rs = (m' * K, N)" by simp
  have pm: "?m - 1 = m'" by (simp only: m' diff_Suc_1)
  have last_snd: "snd (last ?rs) = N" by (simp only: l snd_conv)
  have last_fst: "fst (last ?rs) = (?m - 1) * K" by (simp only: l pm fst_conv)
  have inner: "snd (?rs ! i) = fst (?rs ! Suc i) \<and> snd (?rs ! i) - fst (?rs ! i) = K"
    if "Suc i < length ?rs" for i
  proof -
    from that have i: "Suc i < ?m" by simp
    then have "Suc i \<le> ?m - 1" by simp
    then have "Suc i * K \<le> (?m - 1) * K" by (rule mult_le_mono1)
    with before have "Suc i * K < N" by simp
    then have "min ((i + 1) * K) N = (i + 1) * K" by simp
    then show ?thesis using i by simp
  qed
  have "fst (last ?rs) < snd (last ?rs)" using before by (simp only: last_snd last_fst)
  moreover have "N - (?m - 1) * K \<le> K" using cover step by linarith
  then have "snd (last ?rs) - fst (last ?rs) \<le> K" by (simp only: last_snd last_fst)
  ultimately show ?thesis using sr ne len hd last_snd inner by blast
qed

lemma upt3: "[0..<3] = [0, 1, 2::nat]"
  by (simp add: numeral_3_eq_3)

lemma get_node_pc_100_3:
  "get_node_pc stub_ProjectPoints (PointsSlice 0 100) ''sam.json'' ''pv'' ''nsrdb.h5'' 3 =
     Inr \<lparr>project_points = map int [0..<100], sites_per_split = 34\<rparr>"
  by (simp add: get_node_pc_def stub_ProjectPoints_def ceil_div_def)

lemma split_ranges_100_34:
  "split_ranges \<lparr>project_points = map int [0..<100], sites_per_split = 34\<rparr> =
     Some [(0, 34), (34, 68), (68, 100)]"
  by (simp add: split_ranges_def Let_def upt3)

text \<open>
  Claim C4, as stated, fails in its example: for 100 sites and 3 nodes the split size is
  \<open>ceil(100 / 3) = 34\<close>, so the second node gets \<open>[34, 68)\<close> and the third \<open>[68, 100)\<close>,
  not \<open>[34, 67)\<close> and \<open>[67, 100)\<close>.
\<close>

theorem node_ranges_counterexample:
  "get_node_pc stub_ProjectPoints (PointsSlice 0 100) ''sam.json'' ''pv'' ''nsrdb.h5'' 3 =
     Inr \<lparr>project_points = map int [0..<100], sites_per_split = 34\<rparr> \<and>
   split_ranges \<lparr>project_points = map int [0..<100], sites_per_split = 34\<rparr> =
     Some [(0, 34), (34, 68), (68, 100)] \<and>
   split_ranges \<lparr>project_points = map int [0..<100], sites_per_split = 34\<rparr> \<noteq>
     Some [(0, 34), (34, 67), (67, 100)]"
  by (simp add: get_node_pc_100_3 split_ranges_100_34)

text \<open>
  Claim C4, amended. For a Site Set that is not empty and a node count above zero,
  \<open>get_node_pc\<close> sets the split size to \<open>ceil(total / nodes)\<close>; the nodes' sub-ranges are
  then contiguous, start at 0 and end at the total, there are at most \<open>nodes\<close> of them,
  each but the last has exactly \<open>ceil(total / nodes)\<close> sites, and the last has at least
  one site and at most that many. For 100 sites and 3 nodes the sub-ranges are
  \<open>[0, 34)\<close>, \<open>[34, 68)\<close>, \<open>[68, 100)\<close>.
\<close>

theorem node_ranges_ceil_sized:
  assumes "0 < nodes" and "pp \<noteq> []"
    and "ProjectPoints points sam_files tech res_file = Inr pp"
    and "\<forall>ty. points \<noteq> PointsOther ty"
  shows "(\<exists>pc rs.
           get_node_pc ProjectPoints points sam_files tech res_file nodes = Inr pc \<and>
           sites_per_split pc = ceil_div (int (length pp)) nodes \<and>
           int (length pp) \<le> sites_per_split pc * nodes \<and>
           sites_per_split pc * nodes < int (length pp) + nodes \<and>
           split_ranges pc = Some rs \<and> rs \<noteq> [] \<and> length rs \<le> nat nodes \<and>
           fst (hd rs) = 0 \<and> snd (last rs) = length pp \<and>
           (\<forall>i. Suc i < length rs \<longrightarrow>
              snd (rs ! i) = fst (rs ! Suc i) \<and>
              int (snd (rs ! i) - fst (rs ! i)) = sites_per_split pc) \<and>
           fst (last rs) < snd (last rs) \<and>
           int (snd (last rs) - fst (last rs)) \<le> sites_per_split pc) \<and>
         (\<exists>pc. get_node_pc stub_ProjectPoints (PointsSlice 0 100) ''sam.json'' ''pv''
                 ''nsrdb.h5'' 3 = Inr pc \<and>
               split_ranges pc = Some [(0, 34), (34, 68), (68, 100)])"
proof -
  let ?k = "ceil_div (int (length pp)) nodes"
  let ?pc = "\<lparr>project_points = pp, sites_per_split = ?k\<rparr>"
  have pc: "get_node_pc ProjectPoints points sam_files tech res_file nodes = Inr ?pc"
    using assms(1,3,4) by (cases points) (simp_all add: get_node_pc_def)
  have lo: "int (length pp) \<le> ?k * nodes" and hi: "?k * nodes < int (length pp) + nodes"
    using ceil_div_bounds [OF assms(1), of "int (length pp)"] by simp_all
  have kpos: "0 < ?k" using assms(1,2) by (intro ceil_div_pos) simp_all
  have kpos': "0 < sites_per_split ?pc" using kpos by simp
  have ne': "project_points ?pc \<noteq> []" using assms(2) by simp
  from split_ranges_shape [OF kpos' ne'] obtain rs where
    sr: "split_ranges ?pc = Some rs" and ne: "rs \<noteq> []"
    and len': "length rs =
        (length (project_points ?pc) + nat (sites_per_split ?pc) - 1) div nat (sites_per_split ?pc)"
    and first: "fst (hd rs) = 0" and last': "snd (last rs) = length (project_points ?pc)"
    and inner': "\<forall>i. Suc i < length rs \<longrightarrow>
         snd (rs ! i) = fst (rs ! Suc i) \<and> snd (rs ! i) - fst (rs ! i) = nat (sites_per_split ?pc)"
    and pos: "fst (last rs) < snd (last rs)"
    and small': "snd (last rs) - fst (last rs) \<le> nat (sites_per_split ?pc)"
    by blast
  have len: "length rs = (length pp + nat ?k - 1) div nat ?k" using len' by (simp only: points_control.select_convs)
  have last: "snd (last rs) = length pp" using last' by (simp only: points_control.select_convs)
  have inner: "\<forall>i. Suc i < length rs \<longrightarrow>
         snd (rs ! i) = fst (rs ! Suc i) \<and> snd (rs ! i) - fst (rs ! i) = nat ?k"
    using inner' by (simp only: points_control.select_convs)
  have small: "snd (last rs) - fst (last rs) \<le> nat ?k" using small' by (simp only: points_control.select_convs)
  have "int (length pp) \<le> int (nat ?k * nat nodes)"
    using lo kpos assms(1) by simp
  then have "length pp \<le> nat ?k * nat nodes" by (simp only: of_nat_le_iff)
  then have "(length pp + nat ?k - 1) div nat ?k \<le> nat nodes"
    using kpos by (intro chunk_count_le_nodes) simp_all
  then have count: "length rs \<le> nat nodes" by (simp only: len)
  have sizes: "\<forall>i. Suc i < length rs \<longrightarrow>
      snd (rs ! i) = fst (rs ! Suc i) \<and> int (snd (rs ! i) - fst (rs ! i)) = ?k"
  proof (intro allI impI)
    fix i assume "Suc i < length rs"
    with inner have "snd (rs ! i) = fst (rs ! Suc i)" and "snd (rs ! i) - fst (rs ! i) = nat ?k"
      by blast+
    then show "snd (rs ! i) = fst (rs ! Suc i) \<and> int (snd (rs ! i) - fst (rs ! i)) = ?k"
      using kpos by simp
  qed
  have last_size: "int (snd (last rs) - fst (last rs)) \<le> ?k"
    using small kpos by linarith
  have "get_node_pc ProjectPoints points sam_files tech res_file nodes = Inr ?pc \<and>
        sites_per_split ?pc = ?k \<and>
        int (length pp) \<le> sites_per_split ?pc * nodes \<and>
        sites_per_split ?pc * nodes < int (length pp) + nodes \<and>
        split_ranges ?pc = Some rs \<and> rs \<noteq> [] \<and> length rs \<le> nat nodes \<and>
        fst (hd rs) = 0 \<and> snd (last rs) = length pp \<and>
        (\<forall>i. Suc i < length rs \<longrightarrow>
           snd (rs ! i) = fst (rs ! Suc i) \<and>
           int (snd (rs ! i) - fst (rs ! i)) = sites_per_split ?pc) \<and>
        fst (last rs) < snd (last rs) \<and>
        int (snd (last rs) - fst (last rs)) \<le> sites_per_split ?pc"
    using pc lo hi sr ne count first last sizes pos last_size
    unfolding points_control.select_convs by blast
  then have general: "\<exists>pc rs.
        get_node_pc ProjectPoints points sam_files tech res_file nodes = Inr pc \<and>
        sites_per_split pc = ?k \<and>
        int (length pp) \<le> sites_per_split pc * nodes \<and>
        sites_per_split pc * nodes < int (length pp) + nodes \<and>
        split_ranges pc = Some rs \<and> rs \<noteq> [] \<and> length rs \<le> nat nodes \<and>
        fst (hd rs) = 0 \<and> snd (last rs) = length pp \<and>
        (\<forall>i. Suc i < length rs \<longrightarrow>
           snd (rs ! i) = fst (rs ! Suc i) \<and>
           int (snd (rs ! i) - fst (rs ! i)) = sites_per_split pc) \<and>
        fst (last rs) < snd (last rs) \<and>
        int (snd (last rs) - fst (last rs)) \<le> sites_per_split pc"
    by blast
  have example: "\<exists>pc. get_node_pc stub_ProjectPoints (PointsSlice 0 100) ''sam.json'' ''pv''
        ''nsrdb.h5'' 3 = Inr pc \<and> split_ranges pc = Some [(0, 34), (34, 68), (68, 100)]"
    by (simp add: get_node_pc_100_3 split_ranges_100_34)
  from general example show ?thesis by (rule conjI)
qed

theorem node_ranges_ceil_sized_witness:
  "get_node_pc stub_ProjectPoints (PointsSlice 0 100) ''sam.json'' ''pv'' ''nsrdb.h5'' 3 =
     Inr \<lparr>project_points = map int [0..<100], sites_per_split = 34\<rparr> \<and>
   split_ranges \<lparr>project_points = map int [0..<100], sites_per_split = 34\<rparr> =
     Some [(0, 34), (34, 68), (68, 100)]"
proof -
  have a: "(0::int) < 3" "map int [0..<100] \<noteq> []"
    "stub_ProjectPoints (PointsSlice 0 100) ''sam.json'' ''pv'' ''nsrdb.h5'' = Inr (map int [0..<100])"
    "\<forall>ty. PointsSlice 0 100 \<noteq> PointsOther ty"
    by (simp_all add: stub_ProjectPoints_def)
  from node_ranges_ceil_sized
    [where ProjectPoints = stub_ProjectPoints and points = "PointsSlice 0 100" and nodes = 3
       and sam_files = "''sam.json''" and tech = "''pv''" and res_file = "''nsrdb.h5''", OF a]
  obtain pc rs where
    pc: "get_node_pc stub_ProjectPoints (PointsSlice 0 100) ''sam.json'' ''pv'' ''nsrdb.h5'' 3 = Inr pc"
    and k: "sites_per_split pc = ceil_div (int (length (map int [0..<100]))) 3"
    and rs: "split_ranges pc = Some rs"
    by blast
  from pc have "pc = \<lparr>project_points = map int [0..<100], sites_per_split = 34\<rparr>"
    by (simp add: get_node_pc_100_3)
  with pc rs show ?thesis by (simp add: split_ranges_100_34)
qed

end
